theory Spec2Isabelle
  imports Complex_Main
begin

section \<open>Python values, exceptions and dictionaries\<close>

text \<open>
  An exception raised by the Python source is a value of \<open>error\<close>; a call returns
  \<open>Inl e\<close> when it raises and \<open>Inr v\<close> when it returns \<open>v\<close>. A failed \<open>assert\<close>
  raises \<open>AssertionError\<close> with the message written in the source (assertions are
  enabled, as they are unless the interpreter is started with \<open>-O\<close>).
\<close>

datatype error =
    AssertionError string
  | KeyError string
  | TypeError
  | AttributeError
  | IndexError
  | ValueError
  | SpawnTimeout
  | RemoteError string

type_synonym 'a result = "error + 'a"

text \<open>
  A Python \<open>dict\<close> with string keys keeps its entries in insertion order, one entry
  per key: an association list whose keys are distinct.
\<close>

type_synonym 'v dict = "(string \<times> 'v) list"

definition dict_wf :: "'v dict \<Rightarrow> bool" where
  "dict_wf d = distinct (map fst d)"

definition dict_contains :: "string \<Rightarrow> 'v dict \<Rightarrow> bool" where
  "dict_contains k d = (k \<in> set (map fst d))"

definition dict_getitem :: "'v dict \<Rightarrow> string \<Rightarrow> 'v result" where
  "dict_getitem d k = (case map_of d k of None \<Rightarrow> Inl (KeyError k) | Some v \<Rightarrow> Inr v)"

primrec dict_setitem :: "string \<Rightarrow> 'v \<Rightarrow> 'v dict \<Rightarrow> 'v dict" where
  "dict_setitem k v [] = [(k, v)]"
| "dict_setitem k v (p # ps) = (if fst p = k then (k, v) # ps else p # dict_setitem k v ps)"

definition dict_delitem :: "string \<Rightarrow> 'v dict \<Rightarrow> 'v dict result" where
  "dict_delitem k d =
     (if dict_contains k d then Inr (filter (\<lambda>p. fst p \<noteq> k) d) else Inl (KeyError k))"

definition dict_keys :: "'v dict \<Rightarrow> string list" where
  "dict_keys d = map fst d"

section \<open>The Host (core/host.py)\<close>

text \<open>
  \<open>ProcessSpawner\<close>, \<open>RPCServer\<close> and the NodeGroup proxy are imported by host.py
  from modules that are not part of the sources at hand. The Host is therefore
  modelled over an environment \<open>env\<close> that supplies the four calls the Host makes,
  each acting on a world \<open>'w\<close> (the operating system's processes, the network) and
  each free to raise:
  \<^item> \<open>ps_spawn name addr\<close> is \<open>ProcessSpawner(NodeGroup, name, addr)\<close>;
  \<^item> \<open>ps_any_node_running ps\<close> is \<open>ps.client.any_node_running()\<close>;
  \<^item> \<open>ps_stop ps\<close> is \<open>ps.stop()\<close>;
  \<^item> \<open>rpc_server_close\<close> is \<open>RPCServer.close(self)\<close>.
\<close>

record process_spawner =
  ps_name :: string
  ps_addr :: string

record 'w env =
  ps_spawn :: "string \<Rightarrow> string \<Rightarrow> 'w \<Rightarrow> process_spawner result \<times> 'w"
  ps_any_node_running :: "process_spawner \<Rightarrow> 'w \<Rightarrow> bool result \<times> 'w"
  ps_stop :: "process_spawner \<Rightarrow> 'w \<Rightarrow> unit result \<times> 'w"
  rpc_server_close :: "'w \<Rightarrow> unit result \<times> 'w"

record host =
  host_name :: string
  host_addr :: string
  nodegroup_process :: "process_spawner dict"

definition Host_init :: "string \<Rightarrow> string \<Rightarrow> host" where
  "Host_init name addr = \<lparr>host_name = name, host_addr = addr, nodegroup_process = []\<rparr>"

text \<open>
  Every method takes the Host and the world and returns its outcome together with
  the Host and the world as they are when the method returns or raises.
\<close>

definition create_nodegroup ::
  "'w env \<Rightarrow> string \<Rightarrow> string \<Rightarrow> host \<times> 'w \<Rightarrow> (string \<times> string) result \<times> host \<times> 'w" where
  "create_nodegroup env name addr s =
     (case s of (h, w) \<Rightarrow>
        if dict_contains name (nodegroup_process h)
        then (Inl (AssertionError ''This node group already exists''), h, w)
        else (case ps_spawn env name addr w of
                (Inl e, w1) \<Rightarrow> (Inl e, h, w1)
              | (Inr ps, w1) \<Rightarrow>
                  (Inr (ps_name ps, ps_addr ps),
                   h\<lparr>nodegroup_process := dict_setitem name ps (nodegroup_process h)\<rparr>,
                   w1)))"

definition close_nodegroup ::
  "'w env \<Rightarrow> string \<Rightarrow> bool \<Rightarrow> host \<times> 'w \<Rightarrow> unit result \<times> host \<times> 'w" where
  "close_nodegroup env name force s =
     (case s of (h, w) \<Rightarrow>
        (case dict_getitem (nodegroup_process h) name of
           Inl e \<Rightarrow> (Inl e, h, w)
         | Inr client \<Rightarrow>
            (case (if \<not> force
                   then (case ps_any_node_running env client w of
                           (Inl e, w1) \<Rightarrow> (Inl e, w1)
                         | (Inr running, w1) \<Rightarrow>
                             if \<not> running then (Inr (), w1)
                             else (Inl (AssertionError ''Try to close Host but Node are running''), w1))
                   else (Inr (), w)) of
               (Inl e, w1) \<Rightarrow> (Inl e, h, w1)
             | (Inr u, w1) \<Rightarrow>
                (case dict_getitem (nodegroup_process h) name of
                   Inl e \<Rightarrow> (Inl e, h, w1)
                 | Inr ps \<Rightarrow>
                    (case ps_stop env ps w1 of
                       (Inl e, w2) \<Rightarrow> (Inl e, h, w2)
                     | (Inr u', w2) \<Rightarrow>
                        (case dict_delitem name (nodegroup_process h) of
                           Inl e \<Rightarrow> (Inl e, h, w2)
                         | Inr d \<Rightarrow> (Inr (), h\<lparr>nodegroup_process := d\<rparr>, w2)))))))"

text \<open>The loop of \<open>close_all_nodegroups\<close> over the snapshot \<open>list(keys())\<close>.\<close>

fun close_each ::
  "'w env \<Rightarrow> bool \<Rightarrow> string list \<Rightarrow> host \<times> 'w \<Rightarrow> unit result \<times> host \<times> 'w" where
  "close_each env force [] s = (Inr (), s)"
| "close_each env force (name # names) s =
     (case close_nodegroup env name force s of
        (Inl e, s1) \<Rightarrow> (Inl e, s1)
      | (Inr u, s1) \<Rightarrow> close_each env force names s1)"

definition close_all_nodegroups ::
  "'w env \<Rightarrow> bool \<Rightarrow> host \<times> 'w \<Rightarrow> unit result \<times> host \<times> 'w" where
  "close_all_nodegroups env force s =
     close_each env force (dict_keys (nodegroup_process (fst s))) s"

definition Host_close :: "'w env \<Rightarrow> host \<times> 'w \<Rightarrow> unit result \<times> host \<times> 'w" where
  "Host_close env s =
     (case close_all_nodegroups env True s of
        (Inl e, s1) \<Rightarrow> (Inl e, s1)
      | (Inr u, h1, w1) \<Rightarrow> (case rpc_server_close env w1 of (r, w2) \<Rightarrow> (r, h1, w2)))"

subsection \<open>A world for running the Host\<close>

text \<open>
  Modelled from the spec: the Process Spawner, the NodeGroup proxy and the
  remote-call server (processspawner.py, nodegroup.py and rpc.py are missing).
  Spawning starts a process and returns a handle with the requested name and
  address, or fails with SpawnTimeout when the new process never confirms readiness
  (the names in \<open>unready\<close>); \<open>stop\<close> always ends with the process gone;
  \<open>any_node_running\<close> reports whether the NodeGroup has a Node in the Running
  state (the names in \<open>busy\<close>), and fails when its process is not there; closing
  the server releases it. Every call leaves a mark in \<open>events\<close>.
\<close>

datatype event =
    Spawned string string
  | Queried string
  | Stopped string
  | ServerClosed

record world =
  alive :: "string list"
  busy :: "string list"
  unready :: "string list"
  server_open :: bool
  events :: "event list"

definition sim_spawn :: "string \<Rightarrow> string \<Rightarrow> world \<Rightarrow> process_spawner result \<times> world" where
  "sim_spawn name addr w =
     (if name \<in> set (unready w) then (Inl SpawnTimeout, w)
      else (Inr \<lparr>ps_name = name, ps_addr = addr\<rparr>,
            w\<lparr>alive := alive w @ [name], events := events w @ [Spawned name addr]\<rparr>))"

definition sim_any_node_running :: "process_spawner \<Rightarrow> world \<Rightarrow> bool result \<times> world" where
  "sim_any_node_running ps w =
     (if ps_name ps \<in> set (alive w)
      then (Inr (ps_name ps \<in> set (busy w)), w\<lparr>events := events w @ [Queried (ps_name ps)]\<rparr>)
      else (Inl (RemoteError ''ServerClosed''), w))"

definition sim_stop :: "process_spawner \<Rightarrow> world \<Rightarrow> unit result \<times> world" where
  "sim_stop ps w =
     (Inr (), w\<lparr>alive := removeAll (ps_name ps) (alive w),
               busy := removeAll (ps_name ps) (busy w),
               events := events w @ [Stopped (ps_name ps)]\<rparr>)"

definition sim_server_close :: "world \<Rightarrow> unit result \<times> world" where
  "sim_server_close w = (Inr (), w\<lparr>server_open := False, events := events w @ [ServerClosed]\<rparr>)"

definition sim_env :: "world env" where
  "sim_env = \<lparr>ps_spawn = sim_spawn, ps_any_node_running = sim_any_node_running,
              ps_stop = sim_stop, rpc_server_close = sim_server_close\<rparr>"

definition world0 :: world where
  "world0 = \<lparr>alive = [], busy = [], unready = [''slow''], server_open = True, events = []\<rparr>"

text \<open>A Host that owns two NodeGroups, and the world it lives in: \<open>b\<close> has a running Node.\<close>

definition host_ab :: host where
  "host_ab = \<lparr>host_name = ''host'', host_addr = ''tcp://*:4000'',
     nodegroup_process = [(''a'', \<lparr>ps_name = ''a'', ps_addr = ''tcp://*:4001''\<rparr>),
                          (''b'', \<lparr>ps_name = ''b'', ps_addr = ''tcp://*:4002''\<rparr>)]\<rparr>"

definition world_ab :: world where
  "world_ab = \<lparr>alive = [''a'', ''b''], busy = [''b''], unready = [], server_open = True, events = []\<rparr>"

text \<open>
  What stopping the processes of a list of handles, one after the other, does to the
  world: the outcome, the number of handles stopped, and the world reached. It
  ends at the first \<open>stop\<close> that raises.
\<close>

fun stop_all :: "'w env \<Rightarrow> process_spawner list \<Rightarrow> 'w \<Rightarrow> unit result \<times> nat \<times> 'w" where
  "stop_all env [] w = (Inr (), 0, w)"
| "stop_all env (ps # pss) w =
     (case ps_stop env ps w of
        (Inl e, w1) \<Rightarrow> (Inl e, 0, w1)
      | (Inr u, w1) \<Rightarrow> (case stop_all env pss w1 of (r, k, w2) \<Rightarrow> (r, Suc k, w2)))"


section \<open>The background poller (core/tools.py, ThreadPollInput)\<close>

text \<open>
  \<^verbatim>\<open>
  def __init__(self, input_stream, timeout=200, parent=None):
      QtCore.QThread.__init__(self, parent)
      self.input_stream = weakref.ref(input_stream)
      self.timeout = timeout
      self.running = False
      self.running_lock = Mutex()
      self._pos = None

  def run(self):
      with self.running_lock:
          self.running = True
      while True:
          with self.running_lock:
              if not self.running:
                  break
              if self.input_stream() is None:
                  logging.info("ThreadPollInput has lost InputStream")
                  break
          ev = self.input_stream().poll(timeout=self.timeout)
          if ev>0:
              self._pos, data = self.input_stream().recv()
              self.process_data(self._pos, data)

  def stop(self):
      with self.running_lock:
          self.running = False
  \<close>
  The poller runs in a thread of its own while \<open>stop\<close> is called from another
  thread, so \<open>run\<close> is a machine that takes one step at a time. Its locations are
  the places where another thread can get in between: before the first statement
  (\<open>AtInit\<close>), at the head of the loop (\<open>AtCheck\<close>), before \<open>poll\<close>
  (\<open>AtPoll\<close>) and before \<open>recv\<close> (\<open>AtRecv\<close>); \<open>Finished\<close> is the state after
  \<open>break\<close>, \<open>Crashed\<close> the state after an exception left \<open>run\<close>. A block under
  \<open>with self.running_lock\<close> is one step: the lock keeps \<open>stop\<close> out of it.

  What a step does is written to \<open>trace\<close>, in program order; what the thread that
  calls \<open>stop\<close> does is written to \<open>caller_trace\<close>.
\<close>


text \<open>
  The weak reference \<open>weakref.ref(input_stream)\<close> names a stream and does not keep it
  alive: whether the stream still exists is not part of the poller's state, it is
  observed anew every time the reference is called (\<open>stream_alive\<close> below).
\<close>

type_synonym stream_ref = nat

datatype 'd pevent =
    Lock
  | Unlock
  | SetRunning bool
  | ReadRunning bool
  | CheckStream bool
  | LogInfo string
  | Deref bool
  | Poll int int
  | Recv int 'd
  | Dispatch int 'd

datatype pc = AtInit | AtCheck | AtPoll | AtRecv | Finished | Crashed error

record 'd poller =
  input_stream :: stream_ref
  timeout :: int
  running :: bool
  last_pos :: "int option"  \<comment> \<open>the attribute \<open>_pos\<close>\<close>
  pc :: pc
  trace :: "'d pevent list"
  caller_trace :: "'d pevent list"

text \<open>
  What a step finds in the world around the thread, for the calls whose code is
  not in tools.py: whether \<open>self.input_stream()\<close> returns the stream, what
  \<open>poll\<close> returns, what \<open>recv\<close> returns, and whether \<open>self.process_data\<close>
  (which subclasses override) raises.
\<close>

record 'd obs =
  stream_alive :: bool
  poll_ev :: int
  recv_msg :: "int \<times> 'd"
  handler_raises :: "error option"

text \<open>
  \<open>__init__\<close>, for a thread that has been started: it is about to execute the
  first statement of \<open>run\<close>.
\<close>

definition ThreadPollInput_init :: "stream_ref \<Rightarrow> int \<Rightarrow> 'd poller" where
  "ThreadPollInput_init input_stream_ref tmo =
     \<lparr>input_stream = input_stream_ref, timeout = tmo, running = False, last_pos = None,
      pc = AtInit, trace = [], caller_trace = []\<rparr>"

definition emit :: "'d pevent list \<Rightarrow> 'd poller \<Rightarrow> 'd poller" where
  "emit evs s = s\<lparr>trace := trace s @ evs\<rparr>"

text \<open>
  One step of \<open>run\<close>. Calling a method of \<open>None\<close> raises AttributeError; the call
  \<open>self.process_data(self._pos, data)\<close> is the event \<open>Dispatch\<close>.
\<close>

fun run_step :: "'d obs \<Rightarrow> 'd poller \<Rightarrow> 'd poller" where
  "run_step ob s =
     (case pc s of
        AtInit \<Rightarrow> emit [Lock, SetRunning True, Unlock] (s\<lparr>running := True, pc := AtCheck\<rparr>)
      | AtCheck \<Rightarrow>
          if \<not> running s
          then emit [Lock, ReadRunning False, Unlock] (s\<lparr>pc := Finished\<rparr>)
          else if \<not> stream_alive ob
          then emit [Lock, ReadRunning True, CheckStream False,
                     LogInfo ''ThreadPollInput has lost InputStream'', Unlock] (s\<lparr>pc := Finished\<rparr>)
          else emit [Lock, ReadRunning True, CheckStream True, Unlock] (s\<lparr>pc := AtPoll\<rparr>)
      | AtPoll \<Rightarrow>
          if \<not> stream_alive ob
          then emit [Deref False] (s\<lparr>pc := Crashed AttributeError\<rparr>)
          else emit [Deref True, Poll (timeout s) (poll_ev ob)]
                 (s\<lparr>pc := (if poll_ev ob > 0 then AtRecv else AtCheck)\<rparr>)
      | AtRecv \<Rightarrow>
          if \<not> stream_alive ob
          then emit [Deref False] (s\<lparr>pc := Crashed AttributeError\<rparr>)
          else (case recv_msg ob of (p, data) \<Rightarrow>
                  emit [Deref True, Recv p data, Dispatch p data]
                    (s\<lparr>last_pos := Some p,
                       pc := (case handler_raises ob of None \<Rightarrow> AtCheck | Some e \<Rightarrow> Crashed e)\<rparr>))
      | Finished \<Rightarrow> s
      | Crashed e \<Rightarrow> s)"

definition stop :: "'d poller \<Rightarrow> 'd poller" where
  "stop s = s\<lparr>running := False,
              caller_trace := caller_trace s @ [Lock, SetRunning False, Unlock]\<rparr>"

definition ThreadPollInput_pos :: "'d poller \<Rightarrow> int option" where
  "ThreadPollInput_pos s = last_pos s"

text \<open>
  A schedule says in which order the poller's thread takes its steps and other
  threads call \<open>stop\<close>.
\<close>

datatype 'd action = ThreadStep "'d obs" | CallStop

fun perform :: "'d action \<Rightarrow> 'd poller \<Rightarrow> 'd poller" where
  "perform (ThreadStep ob) s = run_step ob s"
| "perform CallStop s = stop s"

definition exec :: "'d action list \<Rightarrow> 'd poller \<Rightarrow> 'd poller" where
  "exec sched s = fold perform sched s"

fun is_thread_step :: "'d action \<Rightarrow> bool" where
  "is_thread_step (ThreadStep ob) = True"
| "is_thread_step CallStop = False"

definition thread_steps :: "'d action list \<Rightarrow> nat" where
  "thread_steps sched = length (filter is_thread_step sched)"

text \<open>\<open>QThread.wait\<close> returns once \<open>run\<close> has returned or raised.\<close>

fun thread_done :: "pc \<Rightarrow> bool" where
  "thread_done Finished = True"
| "thread_done (Crashed e) = True"
| "thread_done _ = False"

fun is_dispatch :: "'d pevent \<Rightarrow> bool" where
  "is_dispatch (Dispatch p d) = True"
| "is_dispatch _ = False"

definition dispatched :: "'d poller \<Rightarrow> 'd pevent list" where
  "dispatched s = filter is_dispatch (trace s)"

subsection \<open>The discipline of the loop, as a monitor of its trace\<close>

text \<open>
  The monitor reads a trace from its first event and refuses it (\<open>None\<close>) as soon
  as an event breaks one of these rules:
  \<^item> the flag \<open>running\<close> is read and written, and the stream's existence is
    checked, only between \<open>Lock\<close> and \<open>Unlock\<close>;
  \<^item> after the flag was read as cleared, or the stream was found gone, nothing
    follows but the release of the lock (and the log message);
  \<^item> \<open>poll\<close> is called with the poller's timeout, outside the lock, and only
    when the flag was read as set and the stream was found alive since the last
    \<open>Lock\<close>; one pair of checks allows one \<open>poll\<close>;
  \<^item> \<open>recv\<close> is called only after a \<open>poll\<close> that returned \<open>ev > 0\<close>, once;
  \<^item> what is dispatched is the (position, data) pair just received, once.
\<close>

record 'd mon =
  held :: bool
  flag_ok :: bool
  stream_ok :: bool
  may_recv :: bool
  received :: "(int \<times> 'd) option"
  exited :: bool

definition mon0 :: "'d mon" where
  "mon0 = \<lparr>held = False, flag_ok = False, stream_ok = False, may_recv = False,
           received = None, exited = False\<rparr>"

fun observe :: "int \<Rightarrow> 'd pevent \<Rightarrow> 'd mon \<Rightarrow> 'd mon option" where
  "observe tmo Lock m =
     (if held m \<or> exited m \<or> received m \<noteq> None then None
      else Some (m\<lparr>held := True, flag_ok := False, stream_ok := False, may_recv := False\<rparr>))"
| "observe tmo Unlock m = (if held m then Some (m\<lparr>held := False\<rparr>) else None)"
| "observe tmo (SetRunning b) m = (if held m then Some m else None)"
| "observe tmo (ReadRunning b) m =
     (if held m \<and> \<not> exited m then Some (m\<lparr>flag_ok := b, exited := \<not> b\<rparr>) else None)"
| "observe tmo (CheckStream b) m =
     (if held m \<and> flag_ok m \<and> \<not> exited m then Some (m\<lparr>stream_ok := b, exited := \<not> b\<rparr>) else None)"
| "observe tmo (LogInfo msg) m = Some m"
| "observe tmo (Deref b) m = (if exited m then None else Some m)"
| "observe tmo (Poll t ev) m =
     (if \<not> held m \<and> flag_ok m \<and> stream_ok m \<and> \<not> exited m \<and> t = tmo
      then Some (m\<lparr>flag_ok := False, stream_ok := False, may_recv := (0 < ev)\<rparr>) else None)"
| "observe tmo (Recv p d) m =
     (if \<not> held m \<and> may_recv m \<and> \<not> exited m
      then Some (m\<lparr>may_recv := False, received := Some (p, d)\<rparr>) else None)"
| "observe tmo (Dispatch p d) m =
     (if received m = Some (p, d) then Some (m\<lparr>received := None\<rparr>) else None)"

fun monitor :: "int \<Rightarrow> 'd pevent list \<Rightarrow> 'd mon \<Rightarrow> 'd mon option" where
  "monitor tmo [] m = Some m"
| "monitor tmo (e # es) m =
     (case observe tmo e m of None \<Rightarrow> None | Some m1 \<Rightarrow> monitor tmo es m1)"

definition disciplined :: "int \<Rightarrow> 'd pevent list \<Rightarrow> bool" where
  "disciplined tmo tr = (monitor tmo tr mon0 \<noteq> None)"

subsection \<open>Invariants and measures of the machine\<close>


subsection \<open>The stream behind the reference\<close>




text \<open>An observation: the stream is alive and holds one message, at position 500.\<close>

definition ob_msg :: "unit obs" where
  "ob_msg = \<lparr>stream_alive = True, poll_ev = 1, recv_msg = (500, ()), handler_raises = None\<rparr>"



text \<open>
  Once the flag is cleared, the number of steps the thread can still take, and the
  number of messages it can still dispatch, are bounded by where it is.
\<close>

fun steps_to_exit :: "pc \<Rightarrow> nat" where
  "steps_to_exit AtInit = 4"
| "steps_to_exit AtPoll = 3"
| "steps_to_exit AtRecv = 2"
| "steps_to_exit AtCheck = 1"
| "steps_to_exit Finished = 0"
| "steps_to_exit (Crashed e) = 0"

fun in_flight :: "pc \<Rightarrow> nat" where
  "in_flight AtPoll = 1"
| "in_flight AtRecv = 1"
| "in_flight _ = 0"

definition cleared :: "'d poller \<Rightarrow> bool" where
  "cleared s = (\<not> running s \<and> pc s \<noteq> AtInit)"

definition in_loop :: "'d poller \<Rightarrow> bool" where
  "in_loop s = (running s \<and> (pc s = AtCheck \<or> pc s = AtPoll \<or> pc s = AtRecv))"


section \<open>Arrays and streams\<close>

text \<open>
  A chunk of data is a two-dimensional numpy array: its shape and its rows. With
  the time axis 0 a row is a sample and a column a channel; with the time axis 1 a
  row is a channel (the shapes \<open>(-1, n)\<close> and \<open>(n, -1)\<close> that
  \<open>after_input_connect\<close> writes into the output specs).
\<close>


record 'a ndarray =
  nd_shape :: "nat \<times> nat"
  nd_rows :: "'a list list"

text \<open>
  \<open>data[:, chans]\<close> with a list \<open>chans\<close> selects these columns of every row, in
  the order of the list; an index below zero counts from the end, and an index out
  of bounds raises IndexError.
\<close>

definition np_index :: "nat \<Rightarrow> int \<Rightarrow> nat result" where
  "np_index n i =
     (if 0 \<le> i \<and> i < int n then Inr (nat i)
      else if - int n \<le> i \<and> i < 0 then Inr (nat (int n + i))
      else Inl IndexError)"

fun np_indices :: "nat \<Rightarrow> int list \<Rightarrow> nat list result" where
  "np_indices n [] = Inr []"
| "np_indices n (i # rest) =
     (case np_index n i of
        Inl e \<Rightarrow> Inl e
      | Inr j \<Rightarrow> (case np_indices n rest of Inl e \<Rightarrow> Inl e | Inr js \<Rightarrow> Inr (j # js)))"

definition take_columns :: "'a ndarray \<Rightarrow> int list \<Rightarrow> 'a ndarray result" where
  "take_columns data chans =
     (case np_indices (snd (nd_shape data)) chans of
        Inl e \<Rightarrow> Inl e
      | Inr js \<Rightarrow>
          Inr \<lparr>nd_shape = (fst (nd_shape data), length chans),
               nd_rows = map (\<lambda>row. map (\<lambda>j. row ! j) js) (nd_rows data)\<rparr>)"

text \<open>
  Modelled from the spec: \<open>InputStream.get_array_slice(position, length)\<close> returns
  the zero-copy view of the shared ring buffer, or fails (DataOverwritten); the
  stream module is missing. \<open>slice\<close> is what the stream answers, and
  \<open>get_array_slice\<close> is the Python call with its positional arguments: a call with
  more or fewer than the two arguments of the signature raises TypeError.
\<close>

record 'a input_stream =
  slice :: "int \<Rightarrow> int option \<Rightarrow> 'a ndarray result"

datatype pyarg = ArgObject | ArgInt int | ArgNone

definition get_array_slice :: "'a input_stream \<Rightarrow> pyarg list \<Rightarrow> 'a ndarray result" where
  "get_array_slice st args =
     (case args of
        [ArgInt position, ArgNone] \<Rightarrow> slice st position None
      | [ArgInt position, ArgInt len] \<Rightarrow> slice st position (Some len)
      | _ \<Rightarrow> Inl TypeError)"

text \<open>
  A stream spec is the dictionary \<open>after_input_connect\<close> builds; the parameters of
  the input have the same keys. Modelled from the spec: \<open>OutputStream.send(position,
  data)\<close> hands (position, data) to the stream; \<open>sent\<close> lists what it was handed.
\<close>

record stream_spec =
  streamtype :: string
  dtype :: string
  sample_rate :: real
  shape :: "(int \<times> int) option"
  port :: string
  nb_channel :: int
  timeaxis :: int

record 'a output_stream =
  spec :: stream_spec
  sent :: "(int \<times> 'a ndarray option) list"

definition send :: "int \<Rightarrow> 'a ndarray option \<Rightarrow> 'a output_stream \<Rightarrow> 'a output_stream" where
  "send position data out = out\<lparr>sent := sent out @ [(position, data)]\<rparr>"

section \<open>The converter and splitter threads (core/tools.py)\<close>

text \<open>
  \<^verbatim>\<open>
  class ThreadStreamConverter(ThreadPollInput):
      def process_data(self, pos, data):
          if 'transfermode' in self.conversions and self.conversions['transfermode'][0]=='sharedarray':
              data = self.input_stream().get_array_slice(self, pos, None)
          self.output_stream().send(pos, data)
  \<close>
  \<open>conversions\<close> maps a parameter name to (old value, new value). Both streams
  are held by weak references: \<open>None\<close> stands for a stream that is gone.
\<close>

datatype pyval = PStr string | PInt int | PShape "int list" | PNone

record 'a converter =
  cv_input_stream :: "'a input_stream option"
  cv_output_stream :: "'a output_stream option"
  conversions :: "(pyval \<times> pyval) dict"

text \<open>
  \<^verbatim>\<open>
  def _initialize(self):
      self.conversions = {}
      for k in self.input.params:
          if k in ('port', 'protocol', 'interface', 'dtype'):
              continue
          old, new = self.input.params.get(k, None), self.output.params.get(k, None)
          if old != new and old is not None:
              self.conversions[k] = (old, new)
      self.thread = ThreadStreamConverter(self.input, self.output, self.conversions)
  \<close>
\<close>

fun conversions_of ::
  "(string \<times> pyval) list \<Rightarrow> pyval dict \<Rightarrow> pyval dict \<Rightarrow>
     (pyval \<times> pyval) dict \<Rightarrow> (pyval \<times> pyval) dict" where
  "conversions_of [] input_params output_params conv = conv"
| "conversions_of ((k, v) # rest) input_params output_params conv =
     (if k \<in> set [''port'', ''protocol'', ''interface'', ''dtype'']
      then conversions_of rest input_params output_params conv
      else (let old = (case map_of input_params k of None \<Rightarrow> PNone | Some x \<Rightarrow> x);
                new = (case map_of output_params k of None \<Rightarrow> PNone | Some x \<Rightarrow> x)
            in if old \<noteq> new \<and> old \<noteq> PNone
               then conversions_of rest input_params output_params (dict_setitem k (old, new) conv)
               else conversions_of rest input_params output_params conv))"

definition StreamConverter_initialize ::
  "pyval dict \<Rightarrow> 'a input_stream \<Rightarrow> pyval dict \<Rightarrow> 'a output_stream \<Rightarrow> 'a converter" where
  "StreamConverter_initialize input_params inp output_params out =
     \<lparr>cv_input_stream = Some inp, cv_output_stream = Some out,
      conversions = conversions_of input_params input_params output_params []\<rparr>"

definition ThreadStreamConverter_process_data ::
  "int \<Rightarrow> 'a ndarray option \<Rightarrow> 'a converter \<Rightarrow> unit result \<times> 'a converter" where
  "ThreadStreamConverter_process_data pos data self =
     (case (if dict_contains ''transfermode'' (conversions self) \<and>
               map_option fst (map_of (conversions self) ''transfermode'') = Some (PStr ''sharedarray'')
            then (case cv_input_stream self of
                    None \<Rightarrow> Inl AttributeError
                  | Some st \<Rightarrow>
                      (case get_array_slice st [ArgObject, ArgInt pos, ArgNone] of
                         Inl e \<Rightarrow> Inl e
                       | Inr a \<Rightarrow> Inr (Some a)))
            else Inr data) of
        Inl e \<Rightarrow> (Inl e, self)
      | Inr data1 \<Rightarrow>
          (case cv_output_stream self of
             None \<Rightarrow> (Inl AttributeError, self)
           | Some out \<Rightarrow> (Inr (), self\<lparr>cv_output_stream := Some (send pos data1 out)\<rparr>)))"

text \<open>
  \<^verbatim>\<open>
  class ThreadSplitter(ThreadPollInput):
      def process_data(self, pos, data):
          if data is None:
              data =  self.input_stream().get_array_slice(pos, None)
          for k , chans in self.output_channels.items():
              self.outputs_stream[k].send(pos, data[:, chans])
  \<close>
\<close>

record 'a splitter =
  sp_input_stream :: "'a input_stream option"
  outputs_stream :: "'a output_stream dict"
  sp_output_channels :: "int list dict"

fun send_groups ::
  "int \<Rightarrow> 'a ndarray \<Rightarrow> (string \<times> int list) list \<Rightarrow> 'a output_stream dict \<Rightarrow>
     unit result \<times> 'a output_stream dict" where
  "send_groups pos data [] outs = (Inr (), outs)"
| "send_groups pos data ((k, chans) # rest) outs =
     (case dict_getitem outs k of
        Inl e \<Rightarrow> (Inl e, outs)
      | Inr out \<Rightarrow>
          (case take_columns data chans of
             Inl e \<Rightarrow> (Inl e, outs)
           | Inr part \<Rightarrow> send_groups pos data rest (dict_setitem k (send pos (Some part) out) outs)))"

definition ThreadSplitter_process_data ::
  "int \<Rightarrow> 'a ndarray option \<Rightarrow> 'a splitter \<Rightarrow> unit result \<times> 'a splitter" where
  "ThreadSplitter_process_data pos data self =
     (case (case data of
              None \<Rightarrow>
                (case sp_input_stream self of
                   None \<Rightarrow> Inl AttributeError
                 | Some st \<Rightarrow> get_array_slice st [ArgInt pos, ArgNone])
            | Some a \<Rightarrow> Inr a) of
        Inl e \<Rightarrow> (Inl e, self)
      | Inr data1 \<Rightarrow>
          (case send_groups pos data1 (sp_output_channels self) (outputs_stream self) of
             (r, outs) \<Rightarrow> (r, self\<lparr>outputs_stream := outs\<rparr>)))"

text \<open>The samples of channel \<open>c\<close> in a chunk, and the number of channels of a chunk.\<close>

definition channel :: "int \<Rightarrow> 'a ndarray \<Rightarrow> nat \<Rightarrow> 'a list" where
  "channel time_axis a c =
     (if time_axis = 0 then map (\<lambda>row. row ! c) (nd_rows a) else nd_rows a ! c)"

definition channel_count :: "int \<Rightarrow> 'a ndarray \<Rightarrow> nat" where
  "channel_count time_axis a = (if time_axis = 0 then snd (nd_shape a) else fst (nd_shape a))"

section \<open>The channel splitter node (core/tools.py, ChannelSplitter)\<close>

text \<open>
  \<^verbatim>\<open>
  def after_input_connect(self, inputname):
      if self.output_timeaxis == 'same':
          self.output_timeaxis = self.input.params['timeaxis']
      timeaxis = self.output_timeaxis
      n =  self.input.params['nb_channel']
      self.outputs = OrderedDict()
      for k, chans in self.output_channels.items():
          assert min(chans)>=0 and max(chans)<n, 'output_channels do not match channel count {}'.format(n)
          stream_spec = dict(streamtype='analogsignal', dtype = self.input.params['dtype'],
                                              sample_rate = self.input.params['sample_rate'])
          stream_spec['shape'] = None
          stream_spec['port'] = '*'
          stream_spec['nb_channel'] = len(chans)
          stream_spec['timeaxis'] = timeaxis
          if timeaxis==0:
              stream_spec['shape'] = (-1, len(chans))
          else:
              stream_spec['shape'] = (len(chans), -1)
          output = OutputStream(spec=stream_spec)
          self.outputs[k] = output
  \<close>
  \<open>min\<close> and \<open>max\<close> of an empty list raise ValueError.
\<close>

definition py_min :: "int list \<Rightarrow> int result" where
  "py_min xs = (case xs of [] \<Rightarrow> Inl ValueError | x # rest \<Rightarrow> Inr (fold min rest x))"

definition py_max :: "int list \<Rightarrow> int result" where
  "py_max xs = (case xs of [] \<Rightarrow> Inl ValueError | x # rest \<Rightarrow> Inr (fold max rest x))"

fun digits :: "nat \<Rightarrow> string" where
  "digits n =
     (if n < 10 then [''0123456789'' ! n]
      else digits (n div 10) @ [''0123456789'' ! (n mod 10)])"

declare digits.simps [simp del]

text \<open>The decimal digits that \<open>'{}'.format(n)\<close> writes for an integer.\<close>

definition format_int :: "int \<Rightarrow> string" where
  "format_int i = (if i < 0 then CHR ''-'' # digits (nat (- i)) else digits (nat i))"

datatype timeaxis_cfg = Same | Axis int

record 'a channel_splitter =
  cs_input_params :: stream_spec
  output_channels :: "int list dict"
  output_timeaxis :: timeaxis_cfg
  outputs :: "'a output_stream dict"

definition ChannelSplitter_configure ::
  "int list dict \<Rightarrow> timeaxis_cfg \<Rightarrow> 'a channel_splitter \<Rightarrow> 'a channel_splitter" where
  "ChannelSplitter_configure chans tax self =
     self\<lparr>output_channels := chans, output_timeaxis := tax\<rparr>"

definition output_spec :: "stream_spec \<Rightarrow> int \<Rightarrow> int list \<Rightarrow> stream_spec" where
  "output_spec params tax chans =
     (let stream_spec = \<lparr>streamtype = ''analogsignal'', dtype = dtype params,
                          sample_rate = sample_rate params, shape = None, port = ''*'',
                          nb_channel = int (length chans), timeaxis = tax\<rparr>
      in if tax = 0
         then stream_spec\<lparr>shape := Some (- 1, int (length chans))\<rparr>
         else stream_spec\<lparr>shape := Some (int (length chans), - 1)\<rparr>)"

fun derive_outputs ::
  "stream_spec \<Rightarrow> int \<Rightarrow> int \<Rightarrow> (string \<times> int list) list \<Rightarrow> 'a output_stream dict \<Rightarrow>
     unit result \<times> 'a output_stream dict" where
  "derive_outputs params n tax [] outs = (Inr (), outs)"
| "derive_outputs params n tax ((k, chans) # rest) outs =
     (case py_min chans of
        Inl e \<Rightarrow> (Inl e, outs)
      | Inr lo \<Rightarrow>
          if \<not> lo \<ge> 0
          then (Inl (AssertionError (''output_channels do not match channel count '' @ format_int n)), outs)
          else (case py_max chans of
                  Inl e \<Rightarrow> (Inl e, outs)
                | Inr hi \<Rightarrow>
                    if \<not> hi < n
                    then (Inl (AssertionError (''output_channels do not match channel count '' @ format_int n)), outs)
                    else derive_outputs params n tax rest
                           (dict_setitem k \<lparr>spec = output_spec params tax chans, sent = []\<rparr> outs)))"

definition after_input_connect ::
  "string \<Rightarrow> 'a channel_splitter \<Rightarrow> unit result \<times> 'a channel_splitter" where
  "after_input_connect inputname self =
     (let tax = (case output_timeaxis self of
                   Same \<Rightarrow> timeaxis (cs_input_params self)
                 | Axis t \<Rightarrow> t);
          self1 = self\<lparr>output_timeaxis := Axis tax\<rparr>;
          n = nb_channel (cs_input_params self1)
      in case derive_outputs (cs_input_params self1) n tax (output_channels self1) [] of
           (r, outs) \<Rightarrow> (r, self1\<lparr>outputs := outs\<rparr>))"

definition ChannelSplitter_initialize ::
  "'a input_stream \<Rightarrow> 'a channel_splitter \<Rightarrow> 'a splitter" where
  "ChannelSplitter_initialize inp self =
     \<lparr>sp_input_stream = Some inp, outputs_stream = outputs self,
      sp_output_channels = output_channels self\<rparr>"

text \<open>Every index of a group names a channel of an input with \<open>n\<close> channels.\<close>

definition in_range :: "int \<Rightarrow> int list \<Rightarrow> bool" where
  "in_range n chans = list_all (\<lambda>c. 0 \<le> c \<and> c < n) chans"

subsection \<open>A splitter node with the groups a = [0, 1] and b = [2, 3] on four channels\<close>

definition input_params_4 :: "int \<Rightarrow> stream_spec" where
  "input_params_4 tax =
     \<lparr>streamtype = ''analogsignal'', dtype = ''float32'', sample_rate = 1000,
      shape = Some (if tax = 0 then (- 1, 4) else (4, - 1)), port = ''5000'',
      nb_channel = 4, timeaxis = tax\<rparr>"

definition node_ab :: "int \<Rightarrow> int channel_splitter" where
  "node_ab tax =
     ChannelSplitter_configure [(''a'', [0, 1]), (''b'', [2, 3])] Same
       \<lparr>cs_input_params = input_params_4 tax, output_channels = [],
        output_timeaxis = Same, outputs = []\<rparr>"

definition connected_ab :: "int \<Rightarrow> int channel_splitter" where
  "connected_ab tax = snd (after_input_connect ''in'' (node_ab tax))"

definition chunk_t1 :: "int ndarray" where
  "chunk_t1 = \<lparr>nd_shape = (4, 5),
               nd_rows = [[1, 2, 3, 4, 5], [11, 12, 13, 14, 15],
                          [21, 22, 23, 24, 25], [31, 32, 33, 34, 35]]\<rparr>"

definition shared_t1 :: "int input_stream" where
  "shared_t1 = \<lparr>slice = (\<lambda>position len. Inr chunk_t1)\<rparr>"

definition out_spec_t1 :: stream_spec where
  "out_spec_t1 = \<lparr>streamtype = ''analogsignal'', dtype = ''float32'', sample_rate = 1000,
                   shape = Some (2, - 1), port = ''*'', nb_channel = 2, timeaxis = 1\<rparr>"

definition node_empty_group :: "int channel_splitter" where
  "node_empty_group =
     ChannelSplitter_configure [(''a'', [])] Same
       \<lparr>cs_input_params = input_params_4 1, output_channels = [],
        output_timeaxis = Same, outputs = []\<rparr>"

definition converter_shared :: "int converter" where
  "converter_shared =
     StreamConverter_initialize
       [(''protocol'', PStr ''tcp''), (''port'', PStr ''5000''), (''transfermode'', PStr ''sharedarray''),
        (''dtype'', PStr ''float32''), (''nb_channel'', PInt 4), (''timeaxis'', PInt 1)]
       shared_t1
       [(''protocol'', PStr ''tcp''), (''port'', PStr ''5001''), (''transfermode'', PStr ''plaindata''),
        (''dtype'', PStr ''float32''), (''nb_channel'', PInt 4), (''timeaxis'', PInt 1)]
       \<lparr>spec = out_spec_t1, sent = []\<rparr>"

text \<open>The columns \<open>chans\<close> of a chunk, for indices that are not negative.\<close>

definition columns :: "'a ndarray \<Rightarrow> int list \<Rightarrow> 'a ndarray" where
  "columns data chans =
     \<lparr>nd_shape = (fst (nd_shape data), length chans),
      nd_rows = map (\<lambda>row. map (\<lambda>c. row ! nat c) chans) (nd_rows data)\<rparr>"

section \<open>Dictionary facts\<close>

lemma dict_contains_map_of: "dict_contains k d \<longleftrightarrow> map_of d k \<noteq> None"
  by (simp add: dict_contains_def map_of_eq_None_iff)

lemma dict_setitem_fresh: "\<not> dict_contains k d \<Longrightarrow> dict_setitem k v d = d @ [(k, v)]"
  by (induction d) (auto simp: dict_contains_def)

lemma filter_fresh: "\<not> dict_contains k d \<Longrightarrow> filter (\<lambda>p. fst p = k) d = []"
  by (induction d) (auto simp: dict_contains_def)

lemma filter_other: "\<not> dict_contains k d \<Longrightarrow> filter (\<lambda>p. fst p \<noteq> k) d = d"
  by (induction d) (auto simp: dict_contains_def)

lemmas sim_defs = sim_env_def sim_spawn_def sim_any_node_running_def sim_stop_def
  sim_server_close_def host_ab_def world_ab_def world0_def Host_init_def

section \<open>Creating and closing NodeGroups\<close>

text \<open>
  C4: when the process spawn inside \<open>create_nodegroup\<close> raises instead of returning
  a handle, the call raises and the Host is the Host it was: its registry has no
  entry that it did not have before, whether the name was registered already
  (the duplicate check raises first and the spawner is not called) or not.
\<close>

theorem create_nodegroup_spawn_failure:
  assumes "ps_spawn env name addr w = (Inl e, w1)"
  shows "create_nodegroup env name addr (h, w) =
           (if dict_contains name (nodegroup_process h)
            then (Inl (AssertionError ''This node group already exists''), h, w)
            else (Inl e, h, w1))"
  using assms by (simp add: create_nodegroup_def)

theorem create_nodegroup_spawn_failure_witness:
  "ps_spawn sim_env ''slow'' ''tcp://127.0.0.1:5000'' world0 = (Inl SpawnTimeout, world0) \<and>
   create_nodegroup sim_env ''slow'' ''tcp://127.0.0.1:5000'' (Host_init ''host'' ''tcp://*:4000'', world0) =
     (Inl SpawnTimeout, Host_init ''host'' ''tcp://*:4000'', world0)"
proof -
  have sp: "ps_spawn sim_env ''slow'' ''tcp://127.0.0.1:5000'' world0 = (Inl SpawnTimeout, world0)"
    by (simp add: sim_env_def sim_spawn_def world0_def)
  show ?thesis
    using sp create_nodegroup_spawn_failure [OF sp, of "Host_init ''host'' ''tcp://*:4000''"]
    by (simp add: Host_init_def dict_contains_def)
qed


text \<open>
  C1: a first call of \<open>create_nodegroup\<close> with a name the Host does not own, when
  the spawner returns a handle, returns the handle's (name, address) pair and
  records the handle under the name, the world being the one the spawner left.
  A second call with the same name, whatever its address and whatever happened to
  the world in between, raises the AssertionError ``This node group already
  exists'' (the AlreadyExists failure), calls no spawner and leaves the Host as it
  was: exactly one entry of the registry has that name.
\<close>

theorem create_nodegroup_twice:
  assumes fresh: "\<not> dict_contains name (nodegroup_process h)"
      and spawned: "ps_spawn env name addr w = (Inr ps, w1)"
      and h1: "h1 = h\<lparr>nodegroup_process := nodegroup_process h @ [(name, ps)]\<rparr>"
  shows "create_nodegroup env name addr (h, w) = (Inr (ps_name ps, ps_addr ps), h1, w1) \<and>
         dict_getitem (nodegroup_process h1) name = Inr ps \<and>
         create_nodegroup env name addr2 (h1, w2) =
           (Inl (AssertionError ''This node group already exists''), h1, w2) \<and>
         length (filter (\<lambda>p. fst p = name) (nodegroup_process h1)) = 1"
proof -
  have first: "create_nodegroup env name addr (h, w) = (Inr (ps_name ps, ps_addr ps), h1, w1)"
    using fresh spawned h1 by (simp add: create_nodegroup_def dict_setitem_fresh)
  have "map_of (nodegroup_process h) name = None"
    using fresh by (simp add: dict_contains_map_of)
  then have looked: "dict_getitem (nodegroup_process h1) name = Inr ps"
    using h1 by (simp add: dict_getitem_def map_add_def)
  have "dict_contains name (nodegroup_process h1)"
    using h1 by (simp add: dict_contains_def)
  then have second: "create_nodegroup env name addr2 (h1, w2) =
      (Inl (AssertionError ''This node group already exists''), h1, w2)"
    by (simp add: create_nodegroup_def)
  have one: "length (filter (\<lambda>p. fst p = name) (nodegroup_process h1)) = 1"
    using fresh h1 by (simp add: filter_fresh)
  from first looked second one show ?thesis by simp
qed

theorem create_nodegroup_twice_witness:
  "\<not> dict_contains ''c'' (nodegroup_process host_ab) \<and>
   create_nodegroup sim_env ''c'' ''tcp://*:4003'' (host_ab, world_ab) =
     (Inr (''c'', ''tcp://*:4003''),
      host_ab\<lparr>nodegroup_process := nodegroup_process host_ab @ [(''c'', \<lparr>ps_name = ''c'', ps_addr = ''tcp://*:4003''\<rparr>)]\<rparr>,
      world_ab\<lparr>alive := [''a'', ''b'', ''c''], events := [Spawned ''c'' ''tcp://*:4003'']\<rparr>) \<and>
   create_nodegroup sim_env ''c'' ''tcp://*:4009''
     (host_ab\<lparr>nodegroup_process := nodegroup_process host_ab @ [(''c'', \<lparr>ps_name = ''c'', ps_addr = ''tcp://*:4003''\<rparr>)]\<rparr>,
      world_ab\<lparr>alive := [''a'', ''b'', ''c''], events := [Spawned ''c'' ''tcp://*:4003'']\<rparr>) =
     (Inl (AssertionError ''This node group already exists''),
      host_ab\<lparr>nodegroup_process := nodegroup_process host_ab @ [(''c'', \<lparr>ps_name = ''c'', ps_addr = ''tcp://*:4003''\<rparr>)]\<rparr>,
      world_ab\<lparr>alive := [''a'', ''b'', ''c''], events := [Spawned ''c'' ''tcp://*:4003'']\<rparr>)"
proof -
  have fresh: "\<not> dict_contains ''c'' (nodegroup_process host_ab)"
    by (simp add: dict_contains_def host_ab_def)
  have spawned: "ps_spawn sim_env ''c'' ''tcp://*:4003'' world_ab =
      (Inr \<lparr>ps_name = ''c'', ps_addr = ''tcp://*:4003''\<rparr>,
       world_ab\<lparr>alive := [''a'', ''b'', ''c''], events := [Spawned ''c'' ''tcp://*:4003'']\<rparr>)"
    by (simp add: sim_defs)
  show ?thesis
    using fresh create_nodegroup_twice [OF fresh spawned refl, of "''tcp://*:4009''"]
    by simp
qed

text \<open>
  C2: for a registered name, \<open>close_nodegroup\<close> without \<open>force\<close> raises the
  AssertionError ``Try to close Host but Node are running'' (the NodesStillRunning
  failure) whenever the NodeGroup reports a running Node. With \<open>force\<close> the
  report is never asked for: whatever \<open>any_node_running\<close> would answer or
  raise, the call returns once the handle's \<open>stop\<close> has returned, the world is the
  one \<open>stop\<close> left, and the name is no longer in the registry.
\<close>

theorem close_nodegroup_force:
  assumes reg: "dict_getitem (nodegroup_process h) name = Inr ps"
  shows "(ps_any_node_running env ps w = (Inr True, w1) \<longrightarrow>
            close_nodegroup env name False (h, w) =
              (Inl (AssertionError ''Try to close Host but Node are running''), h, w1)) \<and>
         (ps_stop env ps w = (Inr (), w2) \<longrightarrow>
            close_nodegroup (env\<lparr>ps_any_node_running := report\<rparr>) name True (h, w) =
              (Inr (), h\<lparr>nodegroup_process := filter (\<lambda>p. fst p \<noteq> name) (nodegroup_process h)\<rparr>, w2) \<and>
            \<not> dict_contains name (filter (\<lambda>p. fst p \<noteq> name) (nodegroup_process h)))"
proof -
  from reg have "map_of (nodegroup_process h) name \<noteq> None"
    by (auto simp: dict_getitem_def split: option.splits)
  then have c: "dict_contains name (nodegroup_process h)" by (simp add: dict_contains_map_of)
  have a: "ps_any_node_running env ps w = (Inr True, w1) \<Longrightarrow>
            close_nodegroup env name False (h, w) =
              (Inl (AssertionError ''Try to close Host but Node are running''), h, w1)"
    using reg by (simp add: close_nodegroup_def)
  have b: "ps_stop env ps w = (Inr (), w2) \<Longrightarrow>
      close_nodegroup (env\<lparr>ps_any_node_running := report\<rparr>) name True (h, w) =
        (Inr (), h\<lparr>nodegroup_process := filter (\<lambda>p. fst p \<noteq> name) (nodegroup_process h)\<rparr>, w2)"
    using reg c by (simp add: close_nodegroup_def dict_delitem_def)
  have d: "\<not> dict_contains name (filter (\<lambda>p. fst p \<noteq> name) (nodegroup_process h))"
    by (auto simp: dict_contains_def)
  from a b d show ?thesis by auto
qed

theorem close_nodegroup_force_witness:
  "dict_getitem (nodegroup_process host_ab) ''b'' = Inr \<lparr>ps_name = ''b'', ps_addr = ''tcp://*:4002''\<rparr> \<and>
   ps_any_node_running sim_env \<lparr>ps_name = ''b'', ps_addr = ''tcp://*:4002''\<rparr> world_ab =
     (Inr True, world_ab\<lparr>events := [Queried ''b'']\<rparr>) \<and>
   close_nodegroup sim_env ''b'' False (host_ab, world_ab) =
     (Inl (AssertionError ''Try to close Host but Node are running''), host_ab,
      world_ab\<lparr>events := [Queried ''b'']\<rparr>) \<and>
   ps_stop sim_env \<lparr>ps_name = ''b'', ps_addr = ''tcp://*:4002''\<rparr> world_ab =
     (Inr (), world_ab\<lparr>alive := [''a''], busy := [], events := [Stopped ''b'']\<rparr>) \<and>
   close_nodegroup sim_env ''b'' True (host_ab, world_ab) =
     (Inr (), host_ab\<lparr>nodegroup_process := [(''a'', \<lparr>ps_name = ''a'', ps_addr = ''tcp://*:4001''\<rparr>)]\<rparr>,
      world_ab\<lparr>alive := [''a''], busy := [], events := [Stopped ''b'']\<rparr>)"
proof -
  have reg: "dict_getitem (nodegroup_process host_ab) ''b'' = Inr \<lparr>ps_name = ''b'', ps_addr = ''tcp://*:4002''\<rparr>"
    by (simp add: dict_getitem_def host_ab_def)
  have q: "ps_any_node_running sim_env \<lparr>ps_name = ''b'', ps_addr = ''tcp://*:4002''\<rparr> world_ab =
     (Inr True, world_ab\<lparr>events := [Queried ''b'']\<rparr>)"
    by (simp add: sim_defs)
  have st: "ps_stop sim_env \<lparr>ps_name = ''b'', ps_addr = ''tcp://*:4002''\<rparr> world_ab =
     (Inr (), world_ab\<lparr>alive := [''a''], busy := [], events := [Stopped ''b'']\<rparr>)"
    by (simp add: sim_defs)
  have same: "sim_env\<lparr>ps_any_node_running := sim_any_node_running\<rparr> = sim_env"
    by (simp add: sim_env_def)
  show ?thesis
    using reg q st
      close_nodegroup_force [OF reg, of sim_env world_ab "world_ab\<lparr>events := [Queried ''b'']\<rparr>"
        "world_ab\<lparr>alive := [''a''], busy := [], events := [Stopped ''b'']\<rparr>" sim_any_node_running]
    by (simp add: same host_ab_def)
qed

text \<open>
  C10: when \<open>close_nodegroup\<close> without \<open>force\<close> is refused because the NodeGroup
  reports a running Node, the Host is unchanged and the name still maps to its
  handle; the world is the one the report left, and the outcome is the same
  whatever \<open>stop\<close> would do, since \<open>stop\<close> is not called.
\<close>

theorem close_nodegroup_refused_keeps_state:
  assumes reg: "dict_getitem (nodegroup_process h) name = Inr ps"
      and busy: "ps_any_node_running env ps w = (Inr True, w1)"
  shows "snd (close_nodegroup env name False (h, w)) = (h, w1) \<and>
         dict_getitem (nodegroup_process (fst (snd (close_nodegroup env name False (h, w))))) name = Inr ps \<and>
         close_nodegroup (env\<lparr>ps_stop := other_stop\<rparr>) name False (h, w) =
           close_nodegroup env name False (h, w)"
  using reg busy by (simp add: close_nodegroup_def)

theorem close_nodegroup_refused_keeps_state_witness:
  "dict_getitem (nodegroup_process host_ab) ''b'' = Inr \<lparr>ps_name = ''b'', ps_addr = ''tcp://*:4002''\<rparr> \<and>
   ps_any_node_running sim_env \<lparr>ps_name = ''b'', ps_addr = ''tcp://*:4002''\<rparr> world_ab =
     (Inr True, world_ab\<lparr>events := [Queried ''b'']\<rparr>) \<and>
   snd (close_nodegroup sim_env ''b'' False (host_ab, world_ab)) =
     (host_ab, world_ab\<lparr>events := [Queried ''b'']\<rparr>) \<and>
   alive (world_ab\<lparr>events := [Queried ''b'']\<rparr>) = [''a'', ''b'']"
proof -
  have reg: "dict_getitem (nodegroup_process host_ab) ''b'' = Inr \<lparr>ps_name = ''b'', ps_addr = ''tcp://*:4002''\<rparr>"
    by (simp add: dict_getitem_def host_ab_def)
  have q: "ps_any_node_running sim_env \<lparr>ps_name = ''b'', ps_addr = ''tcp://*:4002''\<rparr> world_ab =
     (Inr True, world_ab\<lparr>events := [Queried ''b'']\<rparr>)"
    by (simp add: sim_defs)
  show ?thesis
    using reg q close_nodegroup_refused_keeps_state [OF reg q]
    by (simp add: world_ab_def)
qed

lemma close_nodegroup_head:
  assumes "k \<notin> set (map fst d)"
  shows "close_nodegroup env k True (h\<lparr>nodegroup_process := (k, ps) # d\<rparr>, w) =
     (case ps_stop env ps w of
        (Inl e, w1) \<Rightarrow> (Inl e, h\<lparr>nodegroup_process := (k, ps) # d\<rparr>, w1)
      | (Inr u, w1) \<Rightarrow> (Inr (), h\<lparr>nodegroup_process := d\<rparr>, w1))"
  using assms
  by (auto simp: close_nodegroup_def dict_getitem_def dict_delitem_def dict_contains_def filter_other
           split: prod.splits sum.splits)

lemma close_each_force:
  "distinct (map fst d) \<Longrightarrow>
   close_each env True (map fst d) (h\<lparr>nodegroup_process := d\<rparr>, w) =
     (case stop_all env (map snd d) w of
        (r, k, w1) \<Rightarrow> (r, h\<lparr>nodegroup_process := drop k d\<rparr>, w1))"
proof (induction d arbitrary: w)
  case Nil
  then show ?case by simp
next
  case (Cons p d)
  obtain k ps where p: "p = (k, ps)" by (cases p)
  from Cons.prems p have fresh: "k \<notin> set (map fst d)" and dist: "distinct (map fst d)" by auto
  show ?case
  proof (cases "ps_stop env ps w")
    case (Pair r w1)
    show ?thesis
    proof (cases r)
      case (Inl e)
      with Pair p fresh show ?thesis by (simp add: close_nodegroup_head)
    next
      case (Inr u)
      with Pair p fresh Cons.IH [OF dist, of w1] show ?thesis
        by (simp add: close_nodegroup_head split: prod.splits)
    qed
  qed
qed

lemma stop_all_Inr: "stop_all env pss w = (Inr u, k, w1) \<Longrightarrow> k = length pss"
proof (induction pss arbitrary: w k)
  case Nil
  then show ?case by simp
next
  case (Cons ps pss)
  then show ?case by (fastforce split: prod.splits sum.splits)
qed

lemma stop_all_Inl: "stop_all env pss w = (Inl e, k, w1) \<Longrightarrow> k < length pss"
proof (induction pss arbitrary: w k)
  case Nil
  then show ?case by simp
next
  case (Cons ps pss)
  then show ?case by (fastforce split: prod.splits sum.splits)
qed

text \<open>
  C3: \<open>Host.close\<close> stops the processes of the registry in its order, never asking
  whether Nodes run, and removes each entry after its process was stopped: when
  the stop of entry \<open>k\<close> raises, the entries before it are gone, entry \<open>k\<close> and
  the later ones are still registered, and the Host's own server is not closed.
  Only when every process has been stopped and every entry removed is the server
  closed. When \<open>Host.close\<close> returns, the registry is empty.
\<close>

theorem Host_close_order:
  assumes wf: "dict_wf (nodegroup_process h)"
  shows "Host_close env (h, w) =
           (case stop_all env (map snd (nodegroup_process h)) w of
              (Inl e, k, w1) \<Rightarrow> (Inl e, h\<lparr>nodegroup_process := drop k (nodegroup_process h)\<rparr>, w1)
            | (Inr u, k, w1) \<Rightarrow>
                (case rpc_server_close env w1 of (r, w2) \<Rightarrow> (r, h\<lparr>nodegroup_process := []\<rparr>, w2))) \<and>
         (\<forall>u h' w'. Host_close env (h, w) = (Inr u, h', w') \<longrightarrow> nodegroup_process h' = [])"
proof -
  from wf have dist: "distinct (map fst (nodegroup_process h))" by (simp add: dict_wf_def)
  have all: "close_all_nodegroups env True (h, w) =
     (case stop_all env (map snd (nodegroup_process h)) w of
        (r, k, w1) \<Rightarrow> (r, h\<lparr>nodegroup_process := drop k (nodegroup_process h)\<rparr>, w1))"
    using close_each_force [OF dist, of env h w]
    by (simp add: close_all_nodegroups_def dict_keys_def)
  show ?thesis
    by (auto simp: Host_close_def all split: prod.splits sum.splits dest: stop_all_Inr)
qed


theorem Host_close_order_witness:
  "dict_wf (nodegroup_process host_ab) \<and>
   Host_close sim_env (host_ab, world_ab) =
     (Inr (), host_ab\<lparr>nodegroup_process := []\<rparr>,
      world_ab\<lparr>alive := [], busy := [], server_open := False,
               events := [Stopped ''a'', Stopped ''b'', ServerClosed]\<rparr>) \<and>
   nodegroup_process (fst (snd (Host_close sim_env (host_ab, world_ab)))) = []"
proof -
  have wf: "dict_wf (nodegroup_process host_ab)"
    by (simp add: dict_wf_def host_ab_def)
  show ?thesis
    using wf Host_close_order [OF wf, of sim_env world_ab]
    by (simp add: sim_defs)
qed


section \<open>The poller's loop\<close>



text \<open>
  The monitor refuses a trace that reads the flag or checks the stream without the
  lock, polls without both checks or twice on one pair of checks, polls with
  another timeout, goes on after a failed check, receives after a poll that
  returned nothing, or dispatches something else than it received, or twice.
\<close>

lemma monitor_refuses:
  "\<not> disciplined 200 [ReadRunning True :: unit pevent]"
  "\<not> disciplined 200 [Lock, ReadRunning True, Unlock, CheckStream True :: unit pevent]"
  "\<not> disciplined 200 [Deref True, Poll 200 1 :: unit pevent]"
  "\<not> disciplined 200 [Lock, ReadRunning True, Unlock, Deref True, Poll 200 1 :: unit pevent]"
  "\<not> disciplined 200 [Lock, ReadRunning False, Unlock, Deref True :: unit pevent]"
  "\<not> disciplined 200 [Lock, ReadRunning True, CheckStream False, Unlock, Lock :: unit pevent]"
  "\<not> disciplined 200 [Lock, ReadRunning True, CheckStream True, Unlock, Deref True, Poll 100 1 :: unit pevent]"
  "\<not> disciplined 200 [Lock, ReadRunning True, CheckStream True, Unlock, Deref True, Poll 200 1,
                          Deref True, Poll 200 1 :: unit pevent]"
  "\<not> disciplined 200 [Lock, ReadRunning True, CheckStream True, Unlock, Deref True, Poll 200 0,
                          Deref True, Recv 500 ()]"
  "\<not> disciplined 200 [Lock, ReadRunning True, CheckStream True, Unlock, Deref True, Poll 200 1,
                          Deref True, Recv 500 (), Dispatch 400 ()]"
  "\<not> disciplined 200 [Lock, ReadRunning True, CheckStream True, Unlock, Deref True, Poll 200 1,
                          Deref True, Recv 500 (), Dispatch 500 (), Dispatch 500 ()]"
  by (simp_all add: disciplined_def mon0_def)


lemma stop_agrees:
  "trace (stop s) = trace s \<and> timeout (stop s) = timeout s \<and> pc (stop s) = pc s"
  by (simp add: stop_def)


text \<open>
  No step rebinds the reference or changes the timeout, and the flag is looked at
  only at the head of the loop: a \<open>stop\<close> between the check and \<open>poll\<close> or
  \<open>recv\<close> does not change what these steps do.
\<close>

lemma run_step_keeps_reference:
  "input_stream (run_step ob s) = input_stream s \<and> timeout (run_step ob s) = timeout s"
  by (cases "pc s") (auto simp: emit_def split: prod.splits option.splits)

lemma stop_between_steps:
  "pc s \<noteq> AtInit \<Longrightarrow> pc s \<noteq> AtCheck \<Longrightarrow> run_step ob (stop s) = stop (run_step ob s)"
  by (cases "pc s") (auto simp: emit_def stop_def split: prod.splits option.splits)



lemma exec_append: "exec (xs @ ys) s = exec ys (exec xs s)"
  by (simp add: exec_def)

lemma exec_Cons: "exec (a # sched) s = exec sched (perform a s)"
  by (simp add: exec_def)

lemma exec_Nil: "exec [] s = s"
  by (simp add: exec_def)

lemma perform_cleared:
  assumes "cleared s"
  shows "cleared (perform a s)"
  using assms
  by (cases a; cases "pc s")
     (auto simp: cleared_def emit_def stop_def split: prod.splits option.splits)

lemma perform_steps_to_exit:
  assumes "cleared s"
  shows "steps_to_exit (pc (perform a s)) + (if is_thread_step a then 1 else 0)
           \<le> max 1 (steps_to_exit (pc s)) \<and>
         (\<not> is_thread_step a \<longrightarrow> pc (perform a s) = pc s)"
  using assms
  by (cases a; cases "pc s")
     (auto simp: cleared_def emit_def stop_def split: prod.splits option.splits)

lemma perform_quiet:
  assumes "cleared s"
  shows "\<exists>new. trace (perform a s) = trace s @ new \<and> ReadRunning True \<notin> set new \<and>
           length (filter is_dispatch new) + in_flight (pc (perform a s)) \<le> in_flight (pc s)"
  using assms
  by (cases a; cases "pc s")
     (auto simp: cleared_def emit_def stop_def split: prod.splits option.splits)

lemma exec_cleared: "cleared s \<Longrightarrow> cleared (exec sched s)"
  by (induction sched arbitrary: s) (simp_all add: exec_Nil exec_Cons perform_cleared)

lemma exec_steps_to_exit:
  "cleared s \<Longrightarrow> steps_to_exit (pc (exec sched s)) \<le> steps_to_exit (pc s) - thread_steps sched"
proof (induction sched arbitrary: s)
  case Nil
  then show ?case by (simp add: exec_Nil thread_steps_def)
next
  case (Cons a sched)
  have c: "cleared (perform a s)" using Cons.prems by (rule perform_cleared)
  from Cons.IH [OF c] perform_steps_to_exit [OF Cons.prems, of a]
  show ?case
    by (cases "is_thread_step a") (auto simp: exec_Cons thread_steps_def max_def split: if_splits)
qed

lemma exec_quiet:
  "cleared s \<Longrightarrow>
   \<exists>new. trace (exec sched s) = trace s @ new \<and> ReadRunning True \<notin> set new \<and>
     length (filter is_dispatch new) + in_flight (pc (exec sched s)) \<le> in_flight (pc s)"
proof (induction sched arbitrary: s)
  case Nil
  then show ?case by (simp add: exec_Nil)
next
  case (Cons a sched)
  have c: "cleared (perform a s)" using Cons.prems by (rule perform_cleared)
  from perform_quiet [OF Cons.prems, of a] obtain n1 where
    n1: "trace (perform a s) = trace s @ n1" "ReadRunning True \<notin> set n1"
        "length (filter is_dispatch n1) + in_flight (pc (perform a s)) \<le> in_flight (pc s)"
    by blast
  from Cons.IH [OF c] obtain n2 where
    n2: "trace (exec sched (perform a s)) = trace (perform a s) @ n2" "ReadRunning True \<notin> set n2"
        "length (filter is_dispatch n2) + in_flight (pc (exec sched (perform a s)))
           \<le> in_flight (pc (perform a s))"
    by blast
  have "trace (exec (a # sched) s) = trace s @ (n1 @ n2)"
    using n1(1) n2(1) by (simp add: exec_Cons)
  moreover have "ReadRunning True \<notin> set (n1 @ n2)" using n1(2) n2(2) by simp
  moreover have "length (filter is_dispatch (n1 @ n2)) + in_flight (pc (exec (a # sched) s))
                   \<le> in_flight (pc s)"
    using n1(3) n2(3) by (simp add: exec_Cons)
  ultimately show ?case by blast
qed

lemma perform_done:
  "thread_done (pc s) \<Longrightarrow> trace (perform a s) = trace s \<and> pc (perform a s) = pc s"
  by (cases a; cases "pc s") (auto simp: stop_def)

lemma exec_done:
  "thread_done (pc s) \<Longrightarrow> trace (exec sched s) = trace s \<and> pc (exec sched s) = pc s"
proof (induction sched arbitrary: s)
  case Nil
  then show ?case by (simp add: exec_Nil)
next
  case (Cons a sched)
  from perform_done [OF Cons.prems, of a] Cons.IH [of "perform a s"] Cons.prems
  show ?case by (simp add: exec_Cons)
qed

lemma steps_to_exit_0: "steps_to_exit p = 0 \<longleftrightarrow> thread_done p"
  by (cases p) auto

lemma in_flight_le: "in_flight p \<le> 1"
  by (cases p) auto

text \<open>
  When \<open>stop\<close> is called after the thread has executed the first statement of
  \<open>run\<close>, cancellation works: \<open>stop\<close> clears the flag under the lock and does
  nothing else; the flag stays cleared; the loop never again reads it as set and
  dispatches at most the one message that was on its way; after at most three more
  steps of the thread \<open>run\<close> is over, so \<open>wait\<close> returns; and once it is over
  nothing more is dispatched.
\<close>

lemma stop_is_cooperative:
  assumes started: "pc s \<noteq> AtInit"
  shows "stop s = s\<lparr>running := False,
                     caller_trace := caller_trace s @ [Lock, SetRunning False, Unlock]\<rparr> \<and>
         (\<forall>sched. \<not> running (exec sched (stop s))) \<and>
         (\<forall>sched. \<exists>new. trace (exec sched (stop s)) = trace s @ new \<and>
                    ReadRunning True \<notin> set new \<and> length (filter is_dispatch new) \<le> 1) \<and>
         (\<forall>sched. 3 \<le> thread_steps sched \<longrightarrow> thread_done (pc (exec sched (stop s)))) \<and>
         (\<forall>sched after. thread_done (pc (exec sched (stop s))) \<longrightarrow>
            dispatched (exec (sched @ after) (stop s)) = dispatched (exec sched (stop s)))"
proof -
  have c: "cleared (stop s)" using started by (simp add: cleared_def stop_def)
  have tr: "trace (stop s) = trace s" and pcs: "pc (stop s) = pc s" by (simp_all add: stop_def)
  have p1: "stop s = s\<lparr>running := False,
                     caller_trace := caller_trace s @ [Lock, SetRunning False, Unlock]\<rparr>"
    by (simp add: stop_def)
  have p2: "\<not> running (exec sched (stop s))" for sched
    using exec_cleared [OF c, of sched] by (simp add: cleared_def)
  have p3: "\<exists>new. trace (exec sched (stop s)) = trace s @ new \<and>
                    ReadRunning True \<notin> set new \<and> length (filter is_dispatch new) \<le> 1" for sched
  proof -
    from exec_quiet [OF c, of sched] obtain new where
      n: "trace (exec sched (stop s)) = trace (stop s) @ new" "ReadRunning True \<notin> set new"
         "length (filter is_dispatch new) + in_flight (pc (exec sched (stop s))) \<le> in_flight (pc (stop s))"
      by blast
    from n(3) in_flight_le [of "pc (stop s)"] have "length (filter is_dispatch new) \<le> 1" by linarith
    with n(1,2) tr show ?thesis by auto
  qed
  have p4: "3 \<le> thread_steps sched \<longrightarrow> thread_done (pc (exec sched (stop s)))" for sched
  proof
    assume three: "3 \<le> thread_steps sched"
    have "steps_to_exit (pc (stop s)) \<le> 3" using started pcs by (cases "pc s") auto
    with exec_steps_to_exit [OF c, of sched] three
    have "steps_to_exit (pc (exec sched (stop s))) = 0" by linarith
    then show "thread_done (pc (exec sched (stop s)))" by (simp add: steps_to_exit_0)
  qed
  have p5: "thread_done (pc (exec sched (stop s))) \<longrightarrow>
            dispatched (exec (sched @ after) (stop s)) = dispatched (exec sched (stop s))" for sched after
    using exec_done [of "exec sched (stop s)" after]
    by (simp add: exec_append dispatched_def)
  from p1 p2 p3 p4 p5 show ?thesis by blast
qed

lemma run_step_in_loop:
  assumes "in_loop s" and "stream_alive ob" and "handler_raises ob = None"
  shows "in_loop (run_step ob s)"
  using assms by (auto simp: in_loop_def emit_def split: prod.splits)

lemma steps_in_loop:
  "in_loop s \<Longrightarrow> \<forall>ob\<in>set obs. stream_alive ob \<and> handler_raises ob = None \<Longrightarrow>
   in_loop (exec (map ThreadStep obs) s)"
proof (induction obs arbitrary: s)
  case Nil
  then show ?case by (simp add: exec_def)
next
  case (Cons ob obs)
  from Cons.prems have a: "stream_alive ob" "handler_raises ob = None" by simp_all
  have "in_loop (run_step ob s)" by (rule run_step_in_loop [OF Cons.prems(1) a])
  from Cons.IH [OF this] Cons.prems(2) show ?case by (simp add: exec_def)
qed

text \<open>
  C6: a \<open>stop\<close> that is called before the started thread has executed the first
  statement of \<open>run\<close> is lost. \<open>stop\<close> clears the flag under the lock, and then
  \<open>run\<close> sets it, under the same lock: as long as the stream is alive and the
  handler does not raise, the flag stays set, the loop reads it as set at every
  wake and never exits (\<open>wait\<close> does not return), and it goes on dispatching.
\<close>

theorem stop_before_run_is_lost:
  assumes "\<forall>ob\<in>set obs. stream_alive ob \<and> handler_raises ob = None"
      and "s = exec (CallStop # ThreadStep ob0 # map ThreadStep obs) (ThreadPollInput_init sref tmo)"
  shows "running s \<and> \<not> thread_done (pc s) \<and>
         caller_trace s = [Lock, SetRunning False, Unlock]"
proof -
  let ?s1 = "run_step ob0 (stop (ThreadPollInput_init sref tmo :: 'a poller))"
  have l: "in_loop ?s1" by (simp add: in_loop_def stop_def ThreadPollInput_init_def emit_def)
  have s: "s = exec (map ThreadStep obs) ?s1" using assms(2) by (simp add: exec_def)
  have ct: "caller_trace (exec (map ThreadStep obs) t) = caller_trace t" for t :: "'a poller"
  proof (induction obs arbitrary: t)
    case Nil
    then show ?case by (simp add: exec_def)
  next
    case (Cons ob obs)
    have "caller_trace (run_step ob t) = caller_trace t"
      by (cases "pc t") (auto simp: emit_def split: prod.splits option.splits)
    with Cons.IH [of "run_step ob t"] show ?case by (simp add: exec_def)
  qed
  have c1: "caller_trace ?s1 = [Lock, SetRunning False, Unlock]"
    by (simp add: stop_def ThreadPollInput_init_def emit_def)
  from steps_in_loop [OF l assms(1)] have "in_loop s" by (simp add: s)
  then have "running s" and "\<not> thread_done (pc s)" by (auto simp: in_loop_def)
  moreover have "caller_trace s = [Lock, SetRunning False, Unlock]" unfolding s ct by (rule c1)
  ultimately show ?thesis by simp
qed

theorem stop_before_run_is_lost_witness:
  "stream_alive ob_msg \<and> handler_raises ob_msg = None \<and>
   exec (CallStop # ThreadStep ob_msg # map ThreadStep [ob_msg, ob_msg, ob_msg, ob_msg])
     (ThreadPollInput_init 7 200) =
     \<lparr>input_stream = 7, timeout = 200, running = True, last_pos = Some 500, pc = AtPoll,
      trace = [Lock, SetRunning True, Unlock,
               Lock, ReadRunning True, CheckStream True, Unlock,
               Deref True, Poll 200 1,
               Deref True, Recv 500 (), Dispatch 500 (),
               Lock, ReadRunning True, CheckStream True, Unlock],
      caller_trace = [Lock, SetRunning False, Unlock]\<rparr> \<and>
   running (exec (CallStop # ThreadStep ob_msg # map ThreadStep [ob_msg, ob_msg, ob_msg, ob_msg])
     (ThreadPollInput_init 7 200)) \<and>
   \<not> thread_done (pc (exec (CallStop # ThreadStep ob_msg # map ThreadStep [ob_msg, ob_msg, ob_msg, ob_msg])
     (ThreadPollInput_init 7 200)))"
proof -
  have good: "\<forall>ob\<in>set [ob_msg, ob_msg, ob_msg, ob_msg]. stream_alive ob \<and> handler_raises ob = None"
    by (simp add: ob_msg_def)
  have ev: "exec (CallStop # ThreadStep ob_msg # map ThreadStep [ob_msg, ob_msg, ob_msg, ob_msg])
     (ThreadPollInput_init 7 200) =
     \<lparr>input_stream = 7, timeout = 200, running = True, last_pos = Some 500, pc = AtPoll,
      trace = [Lock, SetRunning True, Unlock,
               Lock, ReadRunning True, CheckStream True, Unlock,
               Deref True, Poll 200 1,
               Deref True, Recv 500 (), Dispatch 500 (),
               Lock, ReadRunning True, CheckStream True, Unlock],
      caller_trace = [Lock, SetRunning False, Unlock]\<rparr>"
    by (simp add: exec_def ThreadPollInput_init_def ob_msg_def emit_def stop_def)
  have good1: "stream_alive ob_msg \<and> handler_raises ob_msg = None" by (simp add: ob_msg_def)
  from good1 ev stop_before_run_is_lost [OF good refl, where ?ob0.0 = ob_msg and sref = 7 and tmo = 200]
  show ?thesis by blast
qed


section \<open>The outputs of the channel splitter\<close>


lemma py_min_ge: "py_min xs = Inr lo \<Longrightarrow> 0 \<le> lo \<longleftrightarrow> (\<forall>c\<in>set xs. 0 \<le> c)"
proof (cases xs)
  case Nil
  then show "py_min xs = Inr lo \<Longrightarrow> ?thesis" by (simp add: py_min_def)
next
  case (Cons x rest)
  assume "py_min xs = Inr lo"
  with Cons have "lo = fold min rest x" by (simp add: py_min_def)
  also have "\<dots> = Min (set (x # rest))" by (rule Min.set_eq_fold [symmetric])
  finally show ?thesis using Cons by (simp add: Min_ge_iff del: set_simps)
qed

lemma py_max_less: "py_max xs = Inr hi \<Longrightarrow> hi < n \<longleftrightarrow> (\<forall>c\<in>set xs. c < n)"
proof (cases xs)
  case Nil
  then show "py_max xs = Inr hi \<Longrightarrow> ?thesis" by (simp add: py_max_def)
next
  case (Cons x rest)
  assume "py_max xs = Inr hi"
  with Cons have "hi = fold max rest x" by (simp add: py_max_def)
  also have "\<dots> = Max (set (x # rest))" by (rule Max.set_eq_fold [symmetric])
  finally show ?thesis using Cons by (simp add: Max_less_iff del: set_simps)
qed

lemma py_min_nonempty: "xs \<noteq> [] \<Longrightarrow> \<exists>lo. py_min xs = Inr lo"
  by (cases xs) (auto simp: py_min_def)

lemma py_max_nonempty: "xs \<noteq> [] \<Longrightarrow> \<exists>hi. py_max xs = Inr hi"
  by (cases xs) (auto simp: py_max_def)

lemma derive_outputs_valid:
  assumes "distinct (map fst groups)"
      and "\<forall>k\<in>set (map fst groups). \<not> dict_contains k outs"
      and "list_all (\<lambda>g. snd g \<noteq> [] \<and> in_range n (snd g)) groups"
  shows "derive_outputs params n tax groups outs =
           (Inr (), outs @ map (\<lambda>g. (fst g, \<lparr>spec = output_spec params tax (snd g), sent = []\<rparr>)) groups)"
  using assms
proof (induction groups arbitrary: outs)
  case Nil
  then show ?case by simp
next
  case (Cons g groups)
  obtain k chans where g: "g = (k, chans)" by (cases g)
  from Cons.prems g have ne: "chans \<noteq> []" and rng: "\<forall>c\<in>set chans. 0 \<le> c \<and> c < n"
    by (auto simp: in_range_def list_all_iff)
  from py_min_nonempty [OF ne] obtain lo where lo: "py_min chans = Inr lo" by blast
  from py_max_nonempty [OF ne] obtain hi where hi: "py_max chans = Inr hi" by blast
  have lo0: "0 \<le> lo" using py_min_ge [OF lo] rng by blast
  have hin: "hi < n" using py_max_less [OF hi, of n] rng by blast
  from Cons.prems g have fresh: "\<not> dict_contains k outs" by simp
  let ?outs = "dict_setitem k \<lparr>spec = output_spec params tax chans, sent = []\<rparr> outs"
  have outs1: "?outs = outs @ [(k, \<lparr>spec = output_spec params tax chans, sent = []\<rparr>)]"
    using fresh by (rule dict_setitem_fresh)
  have d: "distinct (map fst groups)" using Cons.prems by simp
  have f: "\<forall>k'\<in>set (map fst groups). \<not> dict_contains k' ?outs"
    using Cons.prems g by (auto simp: outs1 dict_contains_def)
  have v: "list_all (\<lambda>g. snd g \<noteq> [] \<and> in_range n (snd g)) groups" using Cons.prems by simp
  from Cons.IH [OF d f v] show ?case
    by (simp add: g lo hi lo0 hin outs1)
qed

lemma derive_outputs_invalid:
  assumes "\<exists>g\<in>set groups. snd g = [] \<or> \<not> in_range n (snd g)"
  shows "isl (fst (derive_outputs params n tax groups outs))"
  using assms
proof (induction groups arbitrary: outs)
  case Nil
  then show ?case by simp
next
  case (Cons g groups)
  obtain k chans where g: "g = (k, chans)" by (cases g)
  show ?case
  proof (cases "py_min chans")
    case (Inl e)
    then show ?thesis by (simp add: g)
  next
    case lo: (Inr lo)
    show ?thesis
    proof (cases "py_max chans")
      case (Inl e)
      then show ?thesis by (simp add: g lo)
    next
      case hi: (Inr hi)
      show ?thesis
      proof (cases "0 \<le> lo \<and> hi < n")
        case False
        then show ?thesis by (auto simp: g lo hi)
      next
        case True
        then have "in_range n chans"
          using py_min_ge [OF lo] py_max_less [OF hi, of n] by (auto simp: in_range_def list_all_iff)
        moreover have "chans \<noteq> []" using lo by (auto simp: py_min_def)
        ultimately have "\<exists>g\<in>set groups. snd g = [] \<or> \<not> in_range n (snd g)"
          using Cons.prems g by auto
        from Cons.IH [OF this] True show ?thesis by (simp add: g lo hi)
      qed
    qed
  qed
qed

text \<open>
  C9, amended for empty groups: \<open>after_input_connect\<close>, for the groups of a
  configuration (a Python dict: the names are distinct), where \<open>n\<close> is the channel count of the input and \<open>tax\<close> the
  configured output time axis, the input's own when it is configured as 'same'.
  When every group is non-empty and all its indices are in \<open>0 \<le> c < n\<close>, the
  call returns and the node has exactly one output per group, in the order of the
  groups, under the group's name, whose spec has \<open>nb_channel\<close> the length of the
  group's list, \<open>dtype\<close> and \<open>sample_rate\<close> of the input, \<open>timeaxis = tax\<close> and
  the shape \<open>(-1, len)\<close> for the time axis 0 and \<open>(len, -1)\<close> otherwise. In every
  other case the call raises; in particular it raises when a group has an index
  below 0 or at or above \<open>n\<close> (an empty group raises the ValueError of \<open>min\<close>).
\<close>

theorem after_input_connect_outputs:
  fixes self :: "'a channel_splitter"
  assumes wf: "dict_wf (output_channels self)"
      and tax: "tax = (case output_timeaxis self of Same \<Rightarrow> timeaxis (cs_input_params self) | Axis t \<Rightarrow> t)"
      and n: "n = nb_channel (cs_input_params self)"
  shows "(list_all (\<lambda>g. snd g \<noteq> [] \<and> in_range n (snd g)) (output_channels self) \<longrightarrow>
            after_input_connect inputname self =
              (Inr (), self\<lparr>output_timeaxis := Axis tax,
                            outputs := map (\<lambda>g. (fst g,
                               \<lparr>spec = \<lparr>streamtype = ''analogsignal'',
                                        dtype = dtype (cs_input_params self),
                                        sample_rate = sample_rate (cs_input_params self),
                                        shape = Some (if tax = 0 then (- 1, int (length (snd g)))
                                                      else (int (length (snd g)), - 1)),
                                        port = ''*'',
                                        nb_channel = int (length (snd g)),
                                        timeaxis = tax\<rparr>,
                                sent = []\<rparr>)) (output_channels self)\<rparr>)) \<and>
         (\<not> list_all (\<lambda>g. snd g \<noteq> [] \<and> in_range n (snd g)) (output_channels self) \<longrightarrow>
            isl (fst (after_input_connect inputname self))) \<and>
         ((\<exists>g\<in>set (output_channels self). \<exists>c\<in>set (snd g). c < 0 \<or> n \<le> c) \<longrightarrow>
            isl (fst (after_input_connect inputname self)))"
proof -
  have spec_eq: "output_spec params tax chans =
      \<lparr>streamtype = ''analogsignal'', dtype = dtype params, sample_rate = sample_rate params,
       shape = Some (if tax = 0 then (- 1, int (length chans)) else (int (length chans), - 1)),
       port = ''*'', nb_channel = int (length chans), timeaxis = tax\<rparr>" for params chans
    by (simp add: output_spec_def)
  have d: "distinct (map fst (output_channels self))" using wf by (simp add: dict_wf_def)
  have f: "\<forall>k\<in>set (map fst (output_channels self)). \<not> dict_contains k ([] :: 'a output_stream dict)"
    by (simp add: dict_contains_def)
  have a: "list_all (\<lambda>g. snd g \<noteq> [] \<and> in_range n (snd g)) (output_channels self) \<Longrightarrow>
      after_input_connect inputname self =
        (Inr (), self\<lparr>output_timeaxis := Axis tax,
                      outputs := map (\<lambda>g. (fst g, \<lparr>spec = output_spec (cs_input_params self) tax (snd g), sent = []\<rparr>))
                                   (output_channels self)\<rparr>)"
    using derive_outputs_valid [OF d f, of n "cs_input_params self" tax] tax n
    by (simp add: after_input_connect_def Let_def)
  have b: "isl (fst (after_input_connect inputname self))"
    if bad: "\<exists>g\<in>set (output_channels self). snd g = [] \<or> \<not> in_range n (snd g)"
    using derive_outputs_invalid [OF bad, of "cs_input_params self" tax "[] :: 'a output_stream dict"] tax n
    by (auto simp: after_input_connect_def Let_def split: prod.splits)
  have c: "\<not> list_all (\<lambda>g. snd g \<noteq> [] \<and> in_range n (snd g)) (output_channels self) \<Longrightarrow>
      isl (fst (after_input_connect inputname self))"
    by (rule b) (auto simp: list_all_iff)
  have e: "\<exists>g\<in>set (output_channels self). \<exists>c\<in>set (snd g). c < 0 \<or> n \<le> c \<Longrightarrow>
            isl (fst (after_input_connect inputname self))"
  proof (rule b)
    assume "\<exists>g\<in>set (output_channels self). \<exists>c\<in>set (snd g). c < 0 \<or> n \<le> c"
    then show "\<exists>g\<in>set (output_channels self). snd g = [] \<or> \<not> in_range n (snd g)"
      unfolding in_range_def list_all_iff by (meson not_le)
  qed
  from a c e show ?thesis by (auto simp: spec_eq)
qed

theorem after_input_connect_outputs_witness:
  "dict_wf (output_channels (node_ab 1)) \<and>
   list_all (\<lambda>g. snd g \<noteq> [] \<and> in_range 4 (snd g)) (output_channels (node_ab 1)) \<and>
   after_input_connect ''in'' (node_ab 1) =
     (Inr (), (node_ab 1)\<lparr>output_timeaxis := Axis 1,
                outputs := [(''a'', \<lparr>spec = out_spec_t1, sent = []\<rparr>),
                            (''b'', \<lparr>spec = out_spec_t1, sent = []\<rparr>)]\<rparr>) \<and>
   \<not> list_all (\<lambda>g. snd g \<noteq> [] \<and> in_range 4 (snd g))
       (output_channels ((node_ab 1)\<lparr>output_channels := [(''a'', [0, 1]), (''b'', [2, 4])]\<rparr>)) \<and>
   \<not> in_range 4 [2, 4] \<and>
   isl (fst (after_input_connect ''in'' ((node_ab 1)\<lparr>output_channels := [(''a'', [0, 1]), (''b'', [2, 4])]\<rparr>)))"
proof -
  let ?bad = "(node_ab 1)\<lparr>output_channels := [(''a'', [0, 1]), (''b'', [2, 4])]\<rparr>"
  have wf: "dict_wf (output_channels (node_ab 1))"
    by (simp add: node_ab_def ChannelSplitter_configure_def dict_wf_def)
  have tax: "(1::int) = (case output_timeaxis (node_ab 1) of
                 Same \<Rightarrow> timeaxis (cs_input_params (node_ab 1)) | Axis t \<Rightarrow> t)"
    by (simp add: node_ab_def ChannelSplitter_configure_def input_params_4_def)
  have n: "(4::int) = nb_channel (cs_input_params (node_ab 1))"
    by (simp add: node_ab_def ChannelSplitter_configure_def input_params_4_def)
  have ok: "list_all (\<lambda>g. snd g \<noteq> [] \<and> in_range 4 (snd g)) (output_channels (node_ab 1))"
    by (simp add: node_ab_def ChannelSplitter_configure_def in_range_def)
  have wf2: "dict_wf (output_channels ?bad)" by (simp add: dict_wf_def)
  have tax2: "(1::int) = (case output_timeaxis ?bad of
                 Same \<Rightarrow> timeaxis (cs_input_params ?bad) | Axis t \<Rightarrow> t)"
    by (simp add: node_ab_def ChannelSplitter_configure_def input_params_4_def)
  have n2: "(4::int) = nb_channel (cs_input_params ?bad)"
    by (simp add: node_ab_def ChannelSplitter_configure_def input_params_4_def)
  have bad: "\<not> list_all (\<lambda>g. snd g \<noteq> [] \<and> in_range 4 (snd g)) (output_channels ?bad)"
    by (simp add: in_range_def)
  have fields: "dtype (cs_input_params (node_ab 1)) = ''float32''"
       "sample_rate (cs_input_params (node_ab 1)) = 1000"
       "output_channels (node_ab 1) = [(''a'', [0, 1]), (''b'', [2, 3])]"
    by (simp_all add: node_ab_def ChannelSplitter_configure_def input_params_4_def)
  have bad_index: "\<not> in_range 4 [2, 4]" by (simp add: in_range_def)
  show ?thesis
    using wf ok bad bad_index
      after_input_connect_outputs [OF wf tax n, of "''in''"]
      after_input_connect_outputs [OF wf2 tax2 n2, of "''in''"]
    by (simp add: fields out_spec_t1_def)
qed

text \<open>
  C9 as it is stated promises an output for every group that has no index out of
  range. An empty group has none, and yet \<open>after_input_connect\<close> raises for it, the
  ValueError of \<open>min\<close>, and the node has no output.
\<close>

theorem after_input_connect_empty_group:
  "output_channels node_empty_group = [(''a'', [])] \<and>
   nb_channel (cs_input_params node_empty_group) = 4 \<and>
   in_range 4 [] \<and>
   after_input_connect ''in'' node_empty_group =
     (Inl ValueError, node_empty_group\<lparr>output_timeaxis := Axis 1, outputs := []\<rparr>)"
  by (simp add: node_empty_group_def ChannelSplitter_configure_def input_params_4_def in_range_def
      after_input_connect_def py_min_def Let_def)

section \<open>Messages without data\<close>

text \<open>
  C8: what the converter does with a message \<open>(pos, None)\<close> while both its streams
  are alive. When \<open>conversions\<close> maps \<open>transfermode\<close> from \<open>sharedarray\<close>, its call
  \<open>get_array_slice(self, pos, None)\<close> passes three arguments to a method of two and
  raises TypeError: nothing is sent. Otherwise it fetches nothing and sends
  \<open>(pos, None)\<close> on. In neither case does the output receive the samples.
\<close>

theorem ThreadStreamConverter_shared_memory:
  assumes "cv_input_stream self = Some st" and "cv_output_stream self = Some out"
  shows "ThreadStreamConverter_process_data pos None self =
           (if map_option fst (map_of (conversions self) ''transfermode'') = Some (PStr ''sharedarray'')
            then (Inl TypeError, self)
            else (Inr (), self\<lparr>cv_output_stream := Some (send pos None out)\<rparr>))"
  using assms
  by (auto simp: ThreadStreamConverter_process_data_def get_array_slice_def dict_contains_map_of)

theorem ThreadStreamConverter_shared_memory_witness:
  "conversions converter_shared = [(''transfermode'', (PStr ''sharedarray'', PStr ''plaindata''))] \<and>
   cv_input_stream converter_shared = Some shared_t1 \<and>
   cv_output_stream converter_shared = Some \<lparr>spec = out_spec_t1, sent = []\<rparr> \<and>
   get_array_slice shared_t1 [ArgInt 5, ArgNone] = Inr chunk_t1 \<and>
   ThreadStreamConverter_process_data 5 None converter_shared = (Inl TypeError, converter_shared) \<and>
   ThreadStreamConverter_process_data 5 None (converter_shared\<lparr>conversions := []\<rparr>) =
     (Inr (), converter_shared\<lparr>conversions := [],
        cv_output_stream := Some \<lparr>spec = out_spec_t1, sent = [(5, None)]\<rparr>\<rparr>)"
proof -
  have i: "cv_input_stream converter_shared = Some shared_t1"
    and o: "cv_output_stream converter_shared = Some \<lparr>spec = out_spec_t1, sent = []\<rparr>"
    by (simp_all add: converter_shared_def StreamConverter_initialize_def)
  have cv: "conversions converter_shared = [(''transfermode'', (PStr ''sharedarray'', PStr ''plaindata''))]"
    by (simp add: converter_shared_def StreamConverter_initialize_def)
  have i2: "cv_input_stream (converter_shared\<lparr>conversions := []\<rparr>) = Some shared_t1"
    and o2: "cv_output_stream (converter_shared\<lparr>conversions := []\<rparr>) = Some \<lparr>spec = out_spec_t1, sent = []\<rparr>"
    by (simp_all add: converter_shared_def StreamConverter_initialize_def)
  have c: "map_option fst (map_of (conversions converter_shared) ''transfermode'') = Some (PStr ''sharedarray'')"
    by (simp add: cv)
  have g: "get_array_slice shared_t1 [ArgInt 5, ArgNone] = Inr chunk_t1"
    by (simp add: get_array_slice_def shared_t1_def)
  show ?thesis
    using cv i o g c ThreadStreamConverter_shared_memory [OF i o, of 5]
      ThreadStreamConverter_shared_memory [OF i2 o2, of 5]
    by (simp add: send_def)
qed

section \<open>Routing channels\<close>

text \<open>
  C7: the splitter node with the groups a = [0, 1] and b = [2, 3], connected to an
  input of four channels whose time axis is 1, declares two outputs of shape
  \<open>(2, -1)\<close>. For a chunk of four channels of five samples at position 5, its
  thread sends to output a the first two samples of each of the four channels (an
  array of shape \<open>(4, 2)\<close>), and to b the third and fourth samples: not the channels
  0 and 1 (\<open>[1, 2, 3, 4, 5]\<close> and \<open>[11, 12, 13, 14, 15]\<close>) and the channels 2 and 3.
  The position 5 is sent on both outputs.
\<close>

theorem ThreadSplitter_time_axis_1:
  "after_input_connect ''in'' (node_ab 1) =
     (Inr (), (node_ab 1)\<lparr>output_timeaxis := Axis 1,
                outputs := [(''a'', \<lparr>spec = out_spec_t1, sent = []\<rparr>),
                            (''b'', \<lparr>spec = out_spec_t1, sent = []\<rparr>)]\<rparr>) \<and>
   ThreadSplitter_process_data 5 (Some chunk_t1) (ChannelSplitter_initialize shared_t1 (connected_ab 1)) =
     (Inr (),
      (ChannelSplitter_initialize shared_t1 (connected_ab 1))\<lparr>outputs_stream :=
         [(''a'', \<lparr>spec = out_spec_t1,
                   sent = [(5, Some \<lparr>nd_shape = (4, 2),
                                     nd_rows = [[1, 2], [11, 12], [21, 22], [31, 32]]\<rparr>)]\<rparr>),
          (''b'', \<lparr>spec = out_spec_t1,
                   sent = [(5, Some \<lparr>nd_shape = (4, 2),
                                     nd_rows = [[3, 4], [13, 14], [23, 24], [33, 34]]\<rparr>)]\<rparr>)]\<rparr>) \<and>
   channel_count 1 chunk_t1 = 4 \<and>
   channel 1 chunk_t1 0 = [1, 2, 3, 4, 5] \<and>
   channel 1 chunk_t1 1 = [11, 12, 13, 14, 15] \<and>
   channel_count 1 \<lparr>nd_shape = (4, 2), nd_rows = [[1, 2], [11, 12], [21, 22], [31, 32 :: int]]\<rparr> = 4 \<and>
   channel 1 \<lparr>nd_shape = (4, 2), nd_rows = [[1, 2], [11, 12], [21, 22], [31, 32 :: int]]\<rparr> 0 = [1, 2]"
proof -
  have conn: "after_input_connect ''in'' (node_ab 1) =
     (Inr (), (node_ab 1)\<lparr>output_timeaxis := Axis 1,
                outputs := [(''a'', \<lparr>spec = out_spec_t1, sent = []\<rparr>),
                            (''b'', \<lparr>spec = out_spec_t1, sent = []\<rparr>)]\<rparr>)"
    by (simp add: after_input_connect_def node_ab_def ChannelSplitter_configure_def
        input_params_4_def py_min_def py_max_def output_spec_def out_spec_t1_def Let_def)
  have cab: "connected_ab 1 =
      \<lparr>cs_input_params = input_params_4 1,
       output_channels = [(''a'', [0, 1]), (''b'', [2, 3])],
       output_timeaxis = Axis 1,
       outputs = [(''a'', \<lparr>spec = out_spec_t1, sent = []\<rparr>),
                  (''b'', \<lparr>spec = out_spec_t1, sent = []\<rparr>)]\<rparr>"
    unfolding connected_ab_def conn by (simp add: node_ab_def ChannelSplitter_configure_def)
  have run: "ThreadSplitter_process_data 5 (Some chunk_t1) (ChannelSplitter_initialize shared_t1 (connected_ab 1)) =
     (Inr (),
      (ChannelSplitter_initialize shared_t1 (connected_ab 1))\<lparr>outputs_stream :=
         [(''a'', \<lparr>spec = out_spec_t1,
                   sent = [(5, Some \<lparr>nd_shape = (4, 2),
                                     nd_rows = [[1, 2], [11, 12], [21, 22], [31, 32]]\<rparr>)]\<rparr>),
          (''b'', \<lparr>spec = out_spec_t1,
                   sent = [(5, Some \<lparr>nd_shape = (4, 2),
                                     nd_rows = [[3, 4], [13, 14], [23, 24], [33, 34]]\<rparr>)]\<rparr>)]\<rparr>)"
    by (simp add: cab ThreadSplitter_process_data_def ChannelSplitter_initialize_def
        dict_getitem_def take_columns_def np_index_def chunk_t1_def send_def)
  have ch: "channel_count 1 chunk_t1 = 4" "channel 1 chunk_t1 0 = [1, 2, 3, 4, 5]"
      "channel 1 chunk_t1 1 = [11, 12, 13, 14, 15]"
    by (simp_all add: channel_count_def channel_def chunk_t1_def)
  have sent: "channel_count 1 \<lparr>nd_shape = (4, 2), nd_rows = [[1, 2], [11, 12], [21, 22], [31, 32 :: int]]\<rparr> = 4"
     "channel 1 \<lparr>nd_shape = (4, 2), nd_rows = [[1, 2], [11, 12], [21, 22], [31, 32 :: int]]\<rparr> 0 = [1, 2]"
    by (simp_all add: channel_count_def channel_def)
  from conn run ch sent show ?thesis by simp
qed

lemma np_indices_in_range:
  "in_range (int n) chans \<Longrightarrow> np_indices n chans = Inr (map nat chans)"
  by (induction chans) (auto simp: in_range_def np_index_def)

lemma take_columns_in_range:
  "in_range (int (snd (nd_shape data))) chans \<Longrightarrow> take_columns data chans = Inr (columns data chans)"
  by (simp add: take_columns_def np_indices_in_range columns_def)

lemma columns_channel:
  "i < length chans \<Longrightarrow> channel 0 (columns data chans) i = channel 0 data (nat (chans ! i))"
  by (simp add: channel_def columns_def)

lemma columns_channel_count: "channel_count 0 (columns data chans) = length chans"
  by (simp add: channel_count_def columns_def)

lemma map_of_dict_setitem: "map_of (dict_setitem k v d) = (map_of d)(k \<mapsto> v)"
  by (induction d) (auto simp: fun_eq_iff)

lemma keys_dict_setitem: "dict_contains k d \<Longrightarrow> map fst (dict_setitem k v d) = map fst d"
  by (induction d) (auto simp: dict_contains_def)

lemma send_groups_time_major:
  assumes "distinct (map fst groups)"
      and "\<forall>g\<in>set groups. dict_contains (fst g) outs \<and> in_range (int (snd (nd_shape data))) (snd g)"
  shows "\<exists>outs'. send_groups pos data groups outs = (Inr (), outs') \<and>
           map fst outs' = map fst outs \<and>
           (\<forall>k. map_of outs' k =
              (case map_of groups k of
                 None \<Rightarrow> map_of outs k
               | Some chans \<Rightarrow> map_option (send pos (Some (columns data chans))) (map_of outs k)))"
  using assms
proof (induction groups arbitrary: outs)
  case Nil
  then show ?case by simp
next
  case (Cons g groups)
  obtain k chans where g: "g = (k, chans)" by (cases g)
  from Cons.prems g have kin: "dict_contains k outs"
    and rng: "in_range (int (snd (nd_shape data))) chans" by auto
  from kin obtain out where out: "map_of outs k = Some out"
    by (auto simp: dict_contains_map_of)
  let ?outs1 = "dict_setitem k (send pos (Some (columns data chans)) out) outs"
  have keys1: "map fst ?outs1 = map fst outs" using kin by (rule keys_dict_setitem)
  have d: "distinct (map fst groups)" using Cons.prems by simp
  have c: "\<forall>g\<in>set groups. dict_contains (fst g) ?outs1 \<and> in_range (int (snd (nd_shape data))) (snd g)"
    using Cons.prems(2) by (simp add: dict_contains_def keys1)
  from Cons.IH [OF d c] obtain outs' where
    r: "send_groups pos data groups ?outs1 = (Inr (), outs')"
    and ks: "map fst outs' = map fst ?outs1"
    and m: "\<forall>k'. map_of outs' k' =
              (case map_of groups k' of
                 None \<Rightarrow> map_of ?outs1 k'
               | Some chans' \<Rightarrow> map_option (send pos (Some (columns data chans'))) (map_of ?outs1 k'))"
    by blast
  have step: "send_groups pos data (g # groups) outs = (Inr (), outs')"
    using r out rng by (simp add: g dict_getitem_def take_columns_in_range)
  from Cons.prems(1) g have knot: "map_of groups k = None"
    by (simp add: map_of_eq_None_iff)
  have "map_of outs' k' =
              (case map_of (g # groups) k' of
                 None \<Rightarrow> map_of outs k'
               | Some chans' \<Rightarrow> map_option (send pos (Some (columns data chans'))) (map_of outs k'))" for k'
    using m [rule_format, of k'] knot out
    by (cases "k' = k") (simp_all add: g map_of_dict_setitem split: option.splits)
  with step ks keys1 show ?case by auto
qed

text \<open>
  The splitter fetches the samples of a message without data with
  \<open>get_array_slice(pos, None)\<close>, and goes on as if it had received them.
\<close>

lemma ThreadSplitter_fetches_slice:
  assumes "sp_input_stream self = Some st"
  shows "ThreadSplitter_process_data pos None self =
           (case slice st pos None of
              Inl e \<Rightarrow> (Inl e, self)
            | Inr a \<Rightarrow> ThreadSplitter_process_data pos (Some a) self)"
  using assms
  by (simp add: ThreadSplitter_process_data_def get_array_slice_def split: sum.splits)

text \<open>
  For chunks whose time axis is 0 the splitter routes the channels as configured,
  when every group names existing outputs and channels of the chunk: every output
  of a group receives, at the position of the chunk, exactly the channels of its
  group, in the order of the group, and the other outputs receive nothing.
\<close>

lemma ThreadSplitter_time_axis_0:
  assumes "dict_wf (sp_output_channels self)"
      and "\<forall>g\<in>set (sp_output_channels self).
             dict_contains (fst g) (outputs_stream self) \<and>
             in_range (int (channel_count 0 data)) (snd g)"
  shows "\<exists>self'. ThreadSplitter_process_data pos (Some data) self = (Inr (), self') \<and>
           map fst (outputs_stream self') = map fst (outputs_stream self) \<and>
           (\<forall>k chans. map_of (sp_output_channels self) k = Some chans \<longrightarrow>
              (\<exists>out. map_of (outputs_stream self) k = Some out \<and>
                 map_of (outputs_stream self') k =
                   Some (out\<lparr>sent := sent out @ [(pos, Some (columns data chans))]\<rparr>)) \<and>
              channel_count 0 (columns data chans) = length chans \<and>
              (\<forall>i<length chans. channel 0 (columns data chans) i = channel 0 data (nat (chans ! i)))) \<and>
           (\<forall>k. map_of (sp_output_channels self) k = None \<longrightarrow>
              map_of (outputs_stream self') k = map_of (outputs_stream self) k)"
proof -
  have d: "distinct (map fst (sp_output_channels self))" using assms(1) by (simp add: dict_wf_def)
  have c: "\<forall>g\<in>set (sp_output_channels self). dict_contains (fst g) (outputs_stream self) \<and>
             in_range (int (snd (nd_shape data))) (snd g)"
    using assms(2) by (simp add: channel_count_def)
  from send_groups_time_major [OF d c, of pos] obtain outs' where
    r: "send_groups pos data (sp_output_channels self) (outputs_stream self) = (Inr (), outs')"
    and ks: "map fst outs' = map fst (outputs_stream self)"
    and m: "\<forall>k. map_of outs' k =
              (case map_of (sp_output_channels self) k of
                 None \<Rightarrow> map_of (outputs_stream self) k
               | Some chans \<Rightarrow> map_option (send pos (Some (columns data chans))) (map_of (outputs_stream self) k))"
    by blast
  let ?self' = "self\<lparr>outputs_stream := outs'\<rparr>"
  have run: "ThreadSplitter_process_data pos (Some data) self = (Inr (), ?self')"
    using r by (simp add: ThreadSplitter_process_data_def)
  have some: "\<exists>out. map_of (outputs_stream self) k = Some out \<and>
                 map_of (outputs_stream ?self') k =
                   Some (out\<lparr>sent := sent out @ [(pos, Some (columns data chans))]\<rparr>)"
    if k: "map_of (sp_output_channels self) k = Some chans" for k chans
  proof -
    from k have "(k, chans) \<in> set (sp_output_channels self)" by (rule map_of_SomeD)
    with assms(2) have "dict_contains k (outputs_stream self)" by auto
    then obtain out where out: "map_of (outputs_stream self) k = Some out"
      by (auto simp: dict_contains_map_of)
    with m [rule_format, of k] k show ?thesis by (simp add: send_def)
  qed
  have none: "map_of (outputs_stream ?self') k = map_of (outputs_stream self) k"
    if "map_of (sp_output_channels self) k = None" for k
    using m [rule_format, of k] that by simp
  from run ks some none show ?thesis
    by (auto simp: columns_channel columns_channel_count)
qed

end
